theory Spec2Isabelle
  imports Main "HOL-Library.Sublist" "HOL-Library.AList"
begin

section \<open>The content script \<open>content.js\<close> and its page\<close>

text \<open>
  The script is one class, \<open>GitHubPRFilter\<close>, running in a browser page. The embedding
  keeps everything the script reads or writes in one record, \<open>world\<close>: the location
  path, the two mount points of the host page, \<open>localStorage\<close>, the console, the pending
  timers, the answers the user gives to \<open>prompt\<close>, and the two fields of the class
  (\<open>this.filters\<close>, \<open>this.retryAttempts\<close>).

  JavaScript strings are modelled as \<open>string\<close>, by their UTF-8 bytes. Every delimiter
  the script looks for is ASCII, so searching and splitting agree with JavaScript's code
  units. A JavaScript string can hold a surrogate code unit that is not part of a pair
  (\<open>JSON.parse\<close> returns one for the text \<open>"\ud800"\<close>): such a lone surrogate is
  the three bytes \<open>ED A0..BF 80..BF\<close> that UTF-8 would give its code point. A high
  surrogate followed by a low one is a pair, the same character as the four bytes of its
  code point.
\<close>

subsection \<open>Values\<close>

text \<open>What \<open>JSON.parse\<close> can return. A number keeps its lexeme: no claim computes with one.\<close>

datatype jsvalue =
  JNull
  | JBool bool
  | JNum string
  | JStr string
  | JArr "jsvalue list"
  | JObj "(string \<times> jsvalue) list"

text \<open>
  A DOM node: a text node, a comment, or an element with its tag, attributes and children.
\<close>

datatype node =
  TextNode string
  | CommentNode string
  | Element string "(string \<times> string) list" "node list"

text \<open>
  The exceptions the platform raises in the paths the script takes. \<open>OutsideModel\<close> is
  not one of them: it marks a run that has left the JavaScript this embedding covers (the
  renderer meets a stored value that is not an array of label/query string pairs), and no
  \<open>catch\<close> of the script handles it.
\<close>

datatype js_error =
  TypeError
  | SyntaxError
  | URIError
  | SecurityError
  | QuotaExceededError
  | NotFoundError
  | OutsideModel

text \<open>What the page shows of a run: console output, modal prompts, timer callbacks.\<close>

datatype event =
  ConsoleWarn string
  | ConsoleError string js_error
  | Prompted string
  | TimerFired nat

text \<open>The one callback the script hands to \<open>setTimeout\<close> (in \<open>retryInitialization\<close>).\<close>

datatype callback = RetryCheck

record world =
  pathname :: string
  dropdown :: "node list option"
  subnav :: "node list option"
  searchInput :: "string option"
  storageBlocked :: bool
  storage :: "(string \<times> string) list"
  quota :: nat
  promptReplies :: "string option list"
  clock :: nat
  timers :: "(nat \<times> callback) list"
  trace :: "event list"
  filters :: jsvalue
  retryAttempts :: nat

text \<open>
  \<^item> \<open>pathname\<close> is \<open>window.location.pathname\<close>.
  \<^item> \<open>dropdown\<close> is the child list of the first element matching
    \<open>FILTERS_SEARCH_SELECTOR\<close>, \<open>None\<close> when \<open>querySelector\<close> returns null;
    \<open>subnav\<close> the same for \<open>SUBNAV_SEARCH_SELECTOR\<close>. The two elements are distinct and
    neither contains the other, as on the host page.
  \<^item> \<open>searchInput\<close> is the \<open>value\<close> of the element matching
    \<open>SUBNAV_SEARCH_INPUT_SELECTOR\<close>, if there is one.
  \<^item> \<open>storage\<close> is \<open>localStorage\<close> as key/value pairs; \<open>quota\<close> bounds the characters it
    may hold, and \<open>storageBlocked\<close> says that the browser refuses access to it.
  \<^item> \<open>promptReplies\<close> are the user's answers to the coming \<open>prompt\<close> dialogs, \<open>None\<close>
    for Cancel.
  \<^item> \<open>clock\<close> (in ms) and \<open>timers\<close> (due time and callback) are the timer queue.
\<close>

subsection \<open>Constants of the script\<close>

definition STORAGE_PREFIX :: string where
  "STORAGE_PREFIX = ''GH_PR_Filters_''"

definition MAX_RETRY_ATTEMPTS :: nat where
  "MAX_RETRY_ATTEMPTS = 3"

definition RETRY_DELAY :: nat where
  "RETRY_DELAY = 500"

section \<open>The platform\<close>

text \<open>
  The built-ins of the browser that the script calls, each as far as the script's calls
  reach.
\<close>

subsection \<open>String and array built-ins\<close>

text \<open>\<open>s.includes(p)\<close>: some suffix of \<open>s\<close> starts with \<open>p\<close>.\<close>

fun js_includes :: "string \<Rightarrow> string \<Rightarrow> bool" where
  "js_includes [] p = (p = [])"
| "js_includes (c # cs) p = (prefix p (c # cs) \<or> js_includes cs p)"

text \<open>\<open>s.split(sep)\<close> for a one-character separator; \<open>"".split("/")\<close> is \<open>[""]\<close>.\<close>

fun js_split :: "char \<Rightarrow> string \<Rightarrow> string list" where
  "js_split sep [] = [[]]"
| "js_split sep (c # cs) =
     (if c = sep then [] # js_split sep cs
      else (case js_split sep cs of
              [] \<Rightarrow> [[c]]
            | x # xs \<Rightarrow> (c # x) # xs))"

text \<open>\<open>xs.slice(b, e)\<close> for indices \<open>0 \<le> b \<le> e\<close>; indices past the end are clamped.\<close>

definition js_slice :: "nat \<Rightarrow> nat \<Rightarrow> 'a list \<Rightarrow> 'a list" where
  "js_slice b e xs = take (e - b) (drop b xs)"

text \<open>\<open>xs.join(sep)\<close>.\<close>

fun js_join :: "string \<Rightarrow> string list \<Rightarrow> string" where
  "js_join sep [] = []"
| "js_join sep [x] = x"
| "js_join sep (x # y # ys) = x @ sep @ js_join sep (y # ys)"

text \<open>\<open>s.trim()\<close>, for the white space that can stand at the ends of the script's templates.\<close>

definition is_js_ws :: "char \<Rightarrow> bool" where
  "is_js_ws c \<longleftrightarrow>
     c = CHR '' '' \<or> c = CHR 0x09 \<or> c = CHR 0x0A \<or> c = CHR 0x0B \<or> c = CHR 0x0C \<or> c = CHR 0x0D"

definition js_trim :: "string \<Rightarrow> string" where
  "js_trim s = rev (dropWhile is_js_ws (rev (dropWhile is_js_ws s)))"

subsection \<open>JSON\<close>

text \<open>
  \<open>JSON.stringify\<close> on the values above, and \<open>JSON.parse\<close> in full: a lexer
  from characters to tokens, then a parser that reads the tokens against a stack of open
  arrays and objects.
\<close>

text \<open>Hexadecimal digits, written (lower case) and read (either case).\<close>

definition hex_digit :: "nat \<Rightarrow> char" where
  "hex_digit n = (''0123456789abcdef'') ! (n mod 16)"

definition hex_val :: "char \<Rightarrow> nat option" where
  "hex_val c =
     (let n = (of_char c :: nat) in
      if 48 \<le> n \<and> n \<le> 57 then Some (n - 48)
      else if 97 \<le> n \<and> n \<le> 102 then Some (n - 87)
      else if 65 \<le> n \<and> n \<le> 70 then Some (n - 55)
      else None)"

fun hex4 :: "string \<Rightarrow> nat option" where
  "hex4 [a, b, c, d] =
     (case (hex_val a, hex_val b, hex_val c, hex_val d) of
        (Some x, Some y, Some z, Some u) \<Rightarrow> Some (((x * 16 + y) * 16 + z) * 16 + u)
      | _ \<Rightarrow> None)"
| "hex4 _ = None"

text \<open>
  \<open>JSON.stringify\<close> escapes the quote, the backslash and the control characters, and
  leaves every other character as it is. (A browser writes a lone surrogate as the escape
  \<open>\udXXX\<close>, where the three bytes of the surrogate are written here;
  \<open>JSON.parse\<close> reads the one and the other back as the same string.)
\<close>

definition json_escape_char :: "char \<Rightarrow> string" where
  \<open>json_escape_char c =
     (if c = CHR 0x22 then [CHR 0x5C, CHR 0x22]
      else if c = CHR 0x5C then [CHR 0x5C, CHR 0x5C]
      else if c = CHR 0x08 then [CHR 0x5C, CHR ''b'']
      else if c = CHR 0x0C then [CHR 0x5C, CHR ''f'']
      else if c = CHR 0x0A then [CHR 0x5C, CHR ''n'']
      else if c = CHR 0x0D then [CHR 0x5C, CHR ''r'']
      else if c = CHR 0x09 then [CHR 0x5C, CHR ''t'']
      else if (of_char c :: nat) < 32
        then [CHR 0x5C, CHR ''u'', CHR ''0'', CHR ''0'',
              hex_digit (of_char c div 16), hex_digit (of_char c)]
      else [c])\<close>

definition json_quote :: "string \<Rightarrow> string" where
  "json_quote s = [CHR 0x22] @ concat (map json_escape_char s) @ [CHR 0x22]"

text \<open>An object property is written as its quoted key, a colon and its value; no white space.\<close>

fun JSON_stringify :: "jsvalue \<Rightarrow> string" where
  "JSON_stringify JNull = ''null''"
| "JSON_stringify (JBool b) = (if b then ''true'' else ''false'')"
| "JSON_stringify (JNum n) = n"
| "JSON_stringify (JStr s) = json_quote s"
| "JSON_stringify (JArr vs) = ''['' @ js_join '','' (map JSON_stringify vs) @ '']''"
| "JSON_stringify (JObj kvs) =
     ''{'' @ js_join '','' (map (\<lambda>(k, v). json_quote k @ '':'' @ JSON_stringify v) kvs) @ ''}''"

text \<open>UTF-8 bytes of a code point (for \<open>\uXXXX\<close> escapes).\<close>

definition utf8 :: "nat \<Rightarrow> string" where
  "utf8 n =
     (if n < 128 then [char_of n]
      else if n < 2048 then [char_of (192 + n div 64), char_of (128 + n mod 64)]
      else if n < 65536 then
        [char_of (224 + n div 4096), char_of (128 + n div 64 mod 64), char_of (128 + n mod 64)]
      else
        [char_of (240 + n div 262144), char_of (128 + n div 4096 mod 64),
         char_of (128 + n div 64 mod 64), char_of (128 + n mod 64)])"

text \<open>The character that a one-letter escape, such as \<open>\n\<close>, stands for.\<close>

definition simple_escape :: "char \<Rightarrow> char option" where
  \<open>simple_escape e =
     (if e = CHR 0x22 then Some (CHR 0x22)
      else if e = CHR 0x5C then Some (CHR 0x5C)
      else if e = CHR ''/'' then Some (CHR ''/'')
      else if e = CHR ''b'' then Some (CHR 0x08)
      else if e = CHR ''f'' then Some (CHR 0x0C)
      else if e = CHR ''n'' then Some (CHR 0x0A)
      else if e = CHR ''r'' then Some (CHR 0x0D)
      else if e = CHR ''t'' then Some (CHR 0x09)
      else None)\<close>

text \<open>The low surrogate of a pair, when the text goes on with one.\<close>

definition low_surrogate :: "string \<Rightarrow> nat option" where
  \<open>low_surrogate cs =
     (if take 2 cs = [CHR 0x5C, CHR ''u''] then
        (case hex4 (take 4 (drop 2 cs)) of
           Some m \<Rightarrow> if 56320 \<le> m \<and> m < 57344 then Some m else None
         | None \<Rightarrow> None)
      else None)\<close>

text \<open>The body of a string literal after its opening quote: the string and the rest.\<close>

fun lex_string :: "string \<Rightarrow> (string \<times> string) option" where
  "lex_string [] = None"
| "lex_string (c # cs) =
     (if c = CHR 0x22 then Some ([], cs)
      else if c = CHR 0x5C then
        (case cs of
           [] \<Rightarrow> None
         | e # cs1 \<Rightarrow>
             if e = CHR ''u'' then
               (case hex4 (take 4 cs1) of
                  None \<Rightarrow> None
                | Some n \<Rightarrow>
                    (case (if 55296 \<le> n \<and> n < 56320 then low_surrogate (drop 4 cs1) else None) of
                       Some m \<Rightarrow>
                         map_option (\<lambda>(s, r). (utf8 (65536 + (n - 55296) * 1024 + (m - 56320)) @ s, r))
                           (lex_string (drop 10 cs1))
                     | None \<Rightarrow>
                         map_option (\<lambda>(s, r). (utf8 n @ s, r)) (lex_string (drop 4 cs1))))
             else
               (case simple_escape e of
                  None \<Rightarrow> None
                | Some ch \<Rightarrow> map_option (\<lambda>(s, r). (ch # s, r)) (lex_string cs1)))
      else if (of_char c :: nat) < 32 then None
      else map_option (\<lambda>(s, r). (c # s, r)) (lex_string cs))"

text \<open>A string literal is not empty, which is what makes the lexer terminate.\<close>

lemma lex_string_shorter: "lex_string cs = Some (s, r) \<Longrightarrow> length r < length cs"
proof (induction cs arbitrary: s r rule: lex_string.induct)
  case 1
  then show ?case by simp
next
  case (2 c cs)
  show ?case
    using "2.prems" "2.IH"
    by (fastforce split: if_splits list.splits option.splits)
qed

text \<open>The tokens of a JSON text. A number token keeps its lexeme.\<close>

datatype jtoken =
  TLBrace | TRBrace | TLBrack | TRBrack | TColon | TComma
  | TString string | TNumber string | TTrue | TFalse | TNull

definition is_json_ws :: "char \<Rightarrow> bool" where
  "is_json_ws c \<longleftrightarrow> c = CHR '' '' \<or> c = CHR 0x09 \<or> c = CHR 0x0A \<or> c = CHR 0x0D"

definition is_digit :: "char \<Rightarrow> bool" where
  "is_digit c \<longleftrightarrow> c \<in> set ''0123456789''"

definition is_numchar :: "char \<Rightarrow> bool" where
  "is_numchar c \<longleftrightarrow> c \<in> set ''0123456789+-.eE''"

text \<open>The number grammar of JSON: \<open>-? (0 | [1-9][0-9]*) (. [0-9]+)? ([eE] [+-]? [0-9]+)?\<close>.\<close>

definition valid_exp :: "string \<Rightarrow> bool" where
  "valid_exp s =
     (case s of
        [] \<Rightarrow> True
      | c # r \<Rightarrow>
          (c = CHR ''e'' \<or> c = CHR ''E'') \<and>
          (let ds = (case r of
                       [] \<Rightarrow> []
                     | g # r2 \<Rightarrow> if g = CHR ''+'' \<or> g = CHR ''-'' then r2 else r)
           in ds \<noteq> [] \<and> list_all is_digit ds))"

definition valid_frac :: "string \<Rightarrow> bool" where
  "valid_frac s =
     (case s of
        [] \<Rightarrow> True
      | c # r \<Rightarrow>
          if c = CHR ''.'' then takeWhile is_digit r \<noteq> [] \<and> valid_exp (dropWhile is_digit r)
          else valid_exp s)"

definition valid_int :: "string \<Rightarrow> bool" where
  "valid_int s =
     (case s of
        [] \<Rightarrow> False
      | c # r \<Rightarrow>
          if c = CHR ''0'' then valid_frac r
          else is_digit c \<and> valid_frac (dropWhile is_digit r))"

definition valid_number :: "string \<Rightarrow> bool" where
  "valid_number s =
     (case s of
        [] \<Rightarrow> False
      | c # r \<Rightarrow> if c = CHR ''-'' then valid_int r else valid_int s)"

text \<open>
  The lexer. White space between tokens is skipped; \<open>None\<close> when the text has a
  character that starts no token, an unfinished string or literal, or a malformed number.
\<close>

function json_lex :: "string \<Rightarrow> jtoken list option" where
  "json_lex [] = Some []"
| "json_lex (c # cs) =
     (if is_json_ws c then json_lex cs
      else if c = CHR ''{'' then map_option (Cons TLBrace) (json_lex cs)
      else if c = CHR ''}'' then map_option (Cons TRBrace) (json_lex cs)
      else if c = CHR ''['' then map_option (Cons TLBrack) (json_lex cs)
      else if c = CHR '']'' then map_option (Cons TRBrack) (json_lex cs)
      else if c = CHR '':'' then map_option (Cons TColon) (json_lex cs)
      else if c = CHR '','' then map_option (Cons TComma) (json_lex cs)
      else if c = CHR 0x22 then
        (case lex_string cs of
           None \<Rightarrow> None
         | Some (s, r) \<Rightarrow> map_option (Cons (TString s)) (json_lex r))
      else if c = CHR ''t'' then
        (if take 3 cs = ''rue'' then map_option (Cons TTrue) (json_lex (drop 3 cs)) else None)
      else if c = CHR ''f'' then
        (if take 4 cs = ''alse'' then map_option (Cons TFalse) (json_lex (drop 4 cs)) else None)
      else if c = CHR ''n'' then
        (if take 3 cs = ''ull'' then map_option (Cons TNull) (json_lex (drop 3 cs)) else None)
      else if c = CHR ''-'' \<or> is_digit c then
        (if valid_number (c # takeWhile is_numchar cs)
         then map_option (Cons (TNumber (c # takeWhile is_numchar cs)))
                (json_lex (dropWhile is_numchar cs))
         else None)
      else None)"
  by pat_completeness auto
termination
  apply (relation "measure length")
  apply (auto simp: length_dropWhile_le less_Suc_eq_le dest!: lex_string_shorter)
  done

text \<open>
  An open container: an array with its elements so far, or an object with its properties
  so far, either waiting for a key or holding the key whose value is being read.
\<close>

datatype jframe =
  FArr "jsvalue list"
  | FObjKey "(string \<times> jsvalue) list"
  | FObjVal "(string \<times> jsvalue) list" string

text \<open>What the parser expects next.\<close>

datatype jstate =
  ExpValue | ExpValueOrEnd | ExpKeyOrEnd | ExpKey | ExpColon | ExpCommaOrEnd
  | Finished jsvalue

text \<open>A finished value goes to the innermost open array or object, or ends the text.\<close>

fun put_value :: "jsvalue \<Rightarrow> jframe list \<Rightarrow> (jstate \<times> jframe list) option" where
  "put_value v [] = Some (Finished v, [])"
| "put_value v (FArr vs # st) = Some (ExpCommaOrEnd, FArr (vs @ [v]) # st)"
| "put_value v (FObjVal kvs k # st) = Some (ExpCommaOrEnd, FObjKey (AList.update k v kvs) # st)"
| "put_value v (FObjKey kvs # st) = None"

text \<open>A token that starts a value: a scalar is a finished value, a bracket opens a container.\<close>

fun start_value :: "jtoken \<Rightarrow> jframe list \<Rightarrow> (jstate \<times> jframe list) option" where
  "start_value (TString s) st = put_value (JStr s) st"
| "start_value (TNumber n) st = put_value (JNum n) st"
| "start_value TTrue st = put_value (JBool True) st"
| "start_value TFalse st = put_value (JBool False) st"
| "start_value TNull st = put_value JNull st"
| "start_value TLBrack st = Some (ExpValueOrEnd, FArr [] # st)"
| "start_value TLBrace st = Some (ExpKeyOrEnd, FObjKey [] # st)"
| "start_value _ st = None"

text \<open>One token of input against the parser's state and its stack of open containers.\<close>

definition json_step ::
  "jtoken \<Rightarrow> jstate \<times> jframe list \<Rightarrow> (jstate \<times> jframe list) option" where
  "json_step t cfg =
     (case cfg of (s, st) \<Rightarrow>
        (case s of
           ExpValue \<Rightarrow> start_value t st
         | ExpValueOrEnd \<Rightarrow>
             (case (t, st) of
                (TRBrack, FArr vs # st') \<Rightarrow> put_value (JArr vs) st'
              | _ \<Rightarrow> start_value t st)
         | ExpKeyOrEnd \<Rightarrow>
             (case (t, st) of
                (TString k, FObjKey kvs # st') \<Rightarrow> Some (ExpColon, FObjVal kvs k # st')
              | (TRBrace, FObjKey kvs # st') \<Rightarrow> put_value (JObj kvs) st'
              | _ \<Rightarrow> None)
         | ExpKey \<Rightarrow>
             (case (t, st) of
                (TString k, FObjKey kvs # st') \<Rightarrow> Some (ExpColon, FObjVal kvs k # st')
              | _ \<Rightarrow> None)
         | ExpColon \<Rightarrow> (case t of TColon \<Rightarrow> Some (ExpValue, st) | _ \<Rightarrow> None)
         | ExpCommaOrEnd \<Rightarrow>
             (case (t, st) of
                (TComma, FArr vs # st') \<Rightarrow> Some (ExpValue, st)
              | (TComma, FObjKey kvs # st') \<Rightarrow> Some (ExpKey, st)
              | (TRBrack, FArr vs # st') \<Rightarrow> put_value (JArr vs) st'
              | (TRBrace, FObjKey kvs # st') \<Rightarrow> put_value (JObj kvs) st'
              | _ \<Rightarrow> None)
         | Finished v \<Rightarrow> None))"

text \<open>The tokens one after the other; \<open>None\<close> as soon as one does not fit.\<close>

fun json_run :: "jtoken list \<Rightarrow> jstate \<times> jframe list \<Rightarrow> (jstate \<times> jframe list) option" where
  "json_run [] cfg = Some cfg"
| "json_run (t # ts) cfg =
     (case json_step t cfg of None \<Rightarrow> None | Some cfg' \<Rightarrow> json_run ts cfg')"

text \<open>
  \<open>JSON.parse\<close>: the text must be exactly one value. \<open>None\<close> stands for the
  \<open>SyntaxError\<close> it throws. A key that occurs twice in an object keeps its first place
  and its last value.
\<close>

definition JSON_parse :: "string \<Rightarrow> jsvalue option" where
  "JSON_parse s =
     (case json_lex s of
        None \<Rightarrow> None
      | Some ts \<Rightarrow>
          (case json_run ts (ExpValue, []) of
             Some (Finished v, []) \<Rightarrow> Some v
           | _ \<Rightarrow> None))"

subsection \<open>The console and \<open>localStorage\<close>\<close>

text \<open>
  A call that can throw returns the exception (\<open>Inl\<close>) or its value (\<open>Inr\<close>),
  together with the world it leaves.
\<close>

type_synonym 'a result = "(js_error + 'a) \<times> world"

text \<open>\<open>console.error(msg, e)\<close> and \<open>console.warn(msg)\<close>.\<close>

definition console_error :: "string \<Rightarrow> js_error \<Rightarrow> world \<Rightarrow> world" where
  "console_error msg e w = w\<lparr>trace := trace w @ [ConsoleError msg e]\<rparr>"

definition js_warn :: "string \<Rightarrow> world \<Rightarrow> world" where
  "js_warn msg w = w\<lparr>trace := trace w @ [ConsoleWarn msg]\<rparr>"

text \<open>
  \<open>localStorage\<close>. Both calls throw \<open>SecurityError\<close> when the browser refuses access
  to the store. \<open>setItem\<close> throws \<open>QuotaExceededError\<close>, and writes nothing, when the
  store with the new value would be larger than the quota; the size of the store is the
  total length of its keys and values.
\<close>

definition storage_size :: "(string \<times> string) list \<Rightarrow> nat" where
  "storage_size kvs = sum_list (map (\<lambda>(k, v). length k + length v) kvs)"

definition localStorage_getItem :: "string \<Rightarrow> world \<Rightarrow> js_error + string option" where
  "localStorage_getItem k w =
     (if storageBlocked w then Inl SecurityError else Inr (map_of (storage w) k))"

definition localStorage_setItem :: "string \<Rightarrow> string \<Rightarrow> world \<Rightarrow> js_error + world" where
  "localStorage_setItem k v w =
     (if storageBlocked w then Inl SecurityError
      else if storage_size (AList.update k v (storage w)) \<le> quota w
        then Inr (w\<lparr>storage := AList.update k v (storage w)\<rparr>)
      else Inl QuotaExceededError)"

subsection \<open>\<open>encodeURIComponent\<close>\<close>

text \<open>
  Surrogates in the byte representation: a high surrogate (\<open>D800\<close> to \<open>DBFF\<close>) is
  \<open>ED A0..AF 80..BF\<close>, a low one (\<open>DC00\<close> to \<open>DFFF\<close>) is \<open>ED B0..BF 80..BF\<close>.
\<close>

definition is_cont :: "char \<Rightarrow> bool" where
  "is_cont c \<longleftrightarrow> 128 \<le> (of_char c :: nat) \<and> (of_char c :: nat) < 192"

fun high_surrogate_at :: "string \<Rightarrow> bool" where
  "high_surrogate_at (a # b # c # r) =
     (a = CHR 0xED \<and> 160 \<le> (of_char b :: nat) \<and> (of_char b :: nat) < 176 \<and> is_cont c)"
| "high_surrogate_at _ = False"

fun low_surrogate_at :: "string \<Rightarrow> bool" where
  "low_surrogate_at (a # b # c # r) =
     (a = CHR 0xED \<and> 176 \<le> (of_char b :: nat) \<and> (of_char b :: nat) < 192 \<and> is_cont c)"
| "low_surrogate_at _ = False"

text \<open>The code unit of the surrogate whose three bytes start the string.\<close>

fun surrogate_unit :: "string \<Rightarrow> nat" where
  "surrogate_unit (a # b # c # r) = 53248 + (of_char b - 128) * 64 + (of_char c - 128)"
| "surrogate_unit _ = 0"

text \<open>
  The string has a lone surrogate: a high surrogate that no low one follows, or a low one
  that follows no high one.
\<close>

function lone_surrogate :: "string \<Rightarrow> bool" where
  "lone_surrogate [] = False"
| "lone_surrogate (c # cs) =
     (if high_surrogate_at (c # cs) \<and> low_surrogate_at (drop 2 cs) then lone_surrogate (drop 5 cs)
      else if high_surrogate_at (c # cs) \<or> low_surrogate_at (c # cs) then True
      else lone_surrogate cs)"
  by pat_completeness auto
termination
  by (relation "measure length") auto

definition uri_unreserved :: "char \<Rightarrow> bool" where
  "uri_unreserved c \<longleftrightarrow>
     c \<in> set ''ABCDEFGHIJKLMNOPQRSTUVWXYZabcdefghijklmnopqrstuvwxyz0123456789-_.!~*()''
     \<or> c = CHR 0x27"

definition HEX_digit :: "nat \<Rightarrow> char" where
  "HEX_digit n = (''0123456789ABCDEF'') ! (n mod 16)"

text \<open>The escape \<open>%XX\<close> of a byte.\<close>

definition percent :: "char \<Rightarrow> string" where
  "percent c = [CHR ''%'', HEX_digit (of_char c div 16), HEX_digit (of_char c)]"

text \<open>
  The encoding: an unreserved character stays, every other byte of the UTF-8 form of a
  character becomes its escape. The UTF-8 form of a surrogate pair is that of its code
  point.
\<close>

function uri_encode :: "string \<Rightarrow> string" where
  "uri_encode [] = []"
| "uri_encode (c # cs) =
     (if high_surrogate_at (c # cs) \<and> low_surrogate_at (drop 2 cs) then
        concat (map percent
          (utf8 (65536 + (surrogate_unit (c # cs) - 55296) * 1024
                   + (surrogate_unit (drop 2 cs) - 56320))))
        @ uri_encode (drop 5 cs)
      else (if uri_unreserved c then [c] else percent c) @ uri_encode cs)"
  by pat_completeness auto
termination
  by (relation "measure length") auto

text \<open>
  \<open>encodeURIComponent(s)\<close> throws \<open>URIError\<close> when \<open>s\<close> has a lone surrogate, and
  returns the encoding of \<open>s\<close> otherwise.
\<close>

definition encodeURIComponent :: "string \<Rightarrow> js_error + string" where
  "encodeURIComponent s = (if lone_surrogate s then Inl URIError else Inr (uri_encode s))"

subsection \<open>The HTML fragment parser behind \<open>innerHTML\<close>\<close>

text \<open>
  \<open>div.innerHTML = s\<close> runs the fragment parser of the HTML Standard on \<open>s\<close>: a
  tokenizer, which is a state machine over the characters, and a tree builder. The model
  has tags, attributes, comments, text and character references. It is simpler than a
  browser in three ways:
  \<^item> of the character references, the five predefined ones are decoded;
  \<^item> inside \<open>svg\<close> every start tag opens an SVG element, and of the adjustments the
    Standard makes there the one of attribute names is made (a browser also adjusts some
    tag names, and leaves \<open>svg\<close> at some HTML start tags and in \<open>foreignObject\<close>);
  \<^item> an element stays open until its end tag or the end of the input (no end tag is
    implied and no element is moved), and an end tag that matches no open element is
    ignored.
\<close>

text \<open>The tokens: text, a comment, a start tag with its attributes and self-closing flag, an end tag.\<close>

datatype htoken =
  HText string
  | HComment string
  | HStart string "(string \<times> string) list" bool
  | HEnd string

text \<open>The tag under construction: end tag or start tag, its name, its finished attributes.\<close>

datatype tag_acc = TagAcc bool string "(string \<times> string) list"

text \<open>
  The states of the tokenizer. A state carries what has been read of the token under
  construction: the text so far, the tag, the attribute name and value.
\<close>

datatype tstate =
  Data string
  | TagOpen string
  | EndTagOpen string
  | TagName tag_acc
  | BeforeAttrName tag_acc
  | AttrName tag_acc string
  | AfterAttrName tag_acc string
  | BeforeAttrValue tag_acc string
  | AttrValueDQ tag_acc string string
  | AttrValueSQ tag_acc string string
  | AttrValueUQ tag_acc string string
  | AfterAttrValueQ tag_acc
  | SelfClosing tag_acc
  | MarkupOpen string
  | Doctype
  | BogusComment string
  | CommentStart
  | CommentStartDash
  | CommentText string
  | CommentEndDash string
  | CommentEnd string
  | CommentEndBang string

definition is_html_ws :: "char \<Rightarrow> bool" where
  "is_html_ws c \<longleftrightarrow> c = CHR '' '' \<or> c = CHR 0x09 \<or> c = CHR 0x0A \<or> c = CHR 0x0C \<or> c = CHR 0x0D"

definition is_alpha :: "char \<Rightarrow> bool" where
  "is_alpha c \<longleftrightarrow> c \<in> set ''ABCDEFGHIJKLMNOPQRSTUVWXYZabcdefghijklmnopqrstuvwxyz''"

text \<open>ASCII lower case, as the tokenizer applies it to tag and attribute names.\<close>

definition lower :: "char \<Rightarrow> char" where
  "lower c =
     (case map_of (zip ''ABCDEFGHIJKLMNOPQRSTUVWXYZ'' ''abcdefghijklmnopqrstuvwxyz'') c of
        None \<Rightarrow> c
      | Some d \<Rightarrow> d)"

text \<open>
  Character references, decoded when a text or an attribute value is complete. Only the
  five predefined references, written with their semicolon, are decoded.
\<close>

fun decode_refs :: "string \<Rightarrow> string" where
  "decode_refs [] = []"
| "decode_refs (c # cs) =
     (if c = CHR ''&'' then
        (if take 4 cs = ''amp;'' then CHR ''&'' # decode_refs (drop 4 cs)
         else if take 3 cs = ''lt;'' then CHR ''<'' # decode_refs (drop 3 cs)
         else if take 3 cs = ''gt;'' then CHR ''>'' # decode_refs (drop 3 cs)
         else if take 5 cs = ''quot;'' then CHR 0x22 # decode_refs (drop 5 cs)
         else if take 5 cs = ''apos;'' then CHR 0x27 # decode_refs (drop 5 cs)
         else c # decode_refs cs)
      else c # decode_refs cs)"

text \<open>A finished attribute joins the tag unless its name is already there.\<close>

fun add_attr :: "tag_acc \<Rightarrow> string \<Rightarrow> string \<Rightarrow> tag_acc" where
  "add_attr (TagAcc e n as) k v =
     (if k \<in> fst ` set as then TagAcc e n as else TagAcc e n (as @ [(k, decode_refs v)]))"

fun emit_tag :: "tag_acc \<Rightarrow> bool \<Rightarrow> htoken list" where
  "emit_tag (TagAcc e n as) sc = (if e then [HEnd n] else [HStart n as sc])"

fun tag_name_add :: "tag_acc \<Rightarrow> char \<Rightarrow> tag_acc" where
  "tag_name_add (TagAcc e n as) c = TagAcc e (n @ [lower c]) as"

definition flush_text :: "string \<Rightarrow> htoken list" where
  "flush_text txt = (if txt = [] then [] else [HText (decode_refs txt)])"

definition before_attr_name_step :: "tag_acc \<Rightarrow> char \<Rightarrow> tstate \<times> htoken list" where
  "before_attr_name_step t c =
     (if is_html_ws c then (BeforeAttrName t, [])
      else if c = CHR ''/'' then (SelfClosing t, [])
      else if c = CHR ''>'' then (Data [], emit_tag t False)
      else (AttrName t [lower c], []))"

definition after_attr_name_step :: "tag_acc \<Rightarrow> string \<Rightarrow> char \<Rightarrow> tstate \<times> htoken list" where
  "after_attr_name_step t k c =
     (if is_html_ws c then (AfterAttrName t k, [])
      else if c = CHR ''/'' then (SelfClosing (add_attr t k []), [])
      else if c = CHR ''='' then (BeforeAttrValue t k, [])
      else if c = CHR ''>'' then (Data [], emit_tag (add_attr t k []) False)
      else (AttrName (add_attr t k []) [lower c], []))"

definition attr_value_uq_step ::
  "tag_acc \<Rightarrow> string \<Rightarrow> string \<Rightarrow> char \<Rightarrow> tstate \<times> htoken list" where
  "attr_value_uq_step t k v c =
     (if is_html_ws c then (BeforeAttrName (add_attr t k v), [])
      else if c = CHR ''>'' then (Data [], emit_tag (add_attr t k v) False)
      else (AttrValueUQ t k (v @ [c]), []))"

definition comment_step :: "string \<Rightarrow> char \<Rightarrow> tstate \<times> htoken list" where
  "comment_step d c =
     (if c = CHR ''-'' then (CommentEndDash d, []) else (CommentText (d @ [c]), []))"

text \<open>
  One character of input. The states and their transitions are those of the tokenizer of
  the HTML Standard; where the Standard says to reconsume the character in another state,
  that state's transition is applied to it.
\<close>

fun tok_step :: "tstate \<Rightarrow> char \<Rightarrow> tstate \<times> htoken list" where
  "tok_step (Data txt) c =
     (if c = CHR ''<'' then (TagOpen txt, []) else (Data (txt @ [c]), []))"
| "tok_step (TagOpen txt) c =
     (if c = CHR ''!'' then (MarkupOpen [], flush_text txt)
      else if c = CHR ''/'' then (EndTagOpen txt, [])
      else if is_alpha c then (TagName (TagAcc False [lower c] []), flush_text txt)
      else if c = CHR ''?'' then (BogusComment ''?'', flush_text txt)
      else if c = CHR ''<'' then (TagOpen (txt @ ''<''), [])
      else (Data (txt @ [CHR ''<'', c]), []))"
| "tok_step (EndTagOpen txt) c =
     (if is_alpha c then (TagName (TagAcc True [lower c] []), flush_text txt)
      else if c = CHR ''>'' then (Data txt, [])
      else (BogusComment [c], flush_text txt))"
| "tok_step (TagName t) c =
     (if is_html_ws c then (BeforeAttrName t, [])
      else if c = CHR ''/'' then (SelfClosing t, [])
      else if c = CHR ''>'' then (Data [], emit_tag t False)
      else (TagName (tag_name_add t c), []))"
| "tok_step (BeforeAttrName t) c = before_attr_name_step t c"
| "tok_step (AttrName t k) c =
     (if is_html_ws c \<or> c = CHR ''/'' \<or> c = CHR ''>'' then after_attr_name_step t k c
      else if c = CHR ''='' then (BeforeAttrValue t k, [])
      else (AttrName t (k @ [lower c]), []))"
| "tok_step (AfterAttrName t k) c = after_attr_name_step t k c"
| "tok_step (BeforeAttrValue t k) c =
     (if is_html_ws c then (BeforeAttrValue t k, [])
      else if c = CHR 0x22 then (AttrValueDQ t k [], [])
      else if c = CHR 0x27 then (AttrValueSQ t k [], [])
      else if c = CHR ''>'' then (Data [], emit_tag (add_attr t k []) False)
      else attr_value_uq_step t k [] c)"
| "tok_step (AttrValueDQ t k v) c =
     (if c = CHR 0x22 then (AfterAttrValueQ (add_attr t k v), [])
      else (AttrValueDQ t k (v @ [c]), []))"
| "tok_step (AttrValueSQ t k v) c =
     (if c = CHR 0x27 then (AfterAttrValueQ (add_attr t k v), [])
      else (AttrValueSQ t k (v @ [c]), []))"
| "tok_step (AttrValueUQ t k v) c = attr_value_uq_step t k v c"
| "tok_step (AfterAttrValueQ t) c = before_attr_name_step t c"
| "tok_step (SelfClosing t) c =
     (if c = CHR ''>'' then (Data [], emit_tag t True) else before_attr_name_step t c)"
| "tok_step (MarkupOpen b) c =
     (if b @ [c] = ''--'' then (CommentStart, [])
      else if map lower (b @ [c]) = ''doctype'' then (Doctype, [])
      else if b @ [c] = ''-'' \<or> prefix (map lower (b @ [c])) ''doctype'' then (MarkupOpen (b @ [c]), [])
      else if c = CHR ''>'' then (Data [], [HComment b])
      else (BogusComment (b @ [c]), []))"
| "tok_step Doctype c = (if c = CHR ''>'' then (Data [], []) else (Doctype, []))"
| "tok_step (BogusComment d) c =
     (if c = CHR ''>'' then (Data [], [HComment d]) else (BogusComment (d @ [c]), []))"
| "tok_step CommentStart c =
     (if c = CHR ''-'' then (CommentStartDash, [])
      else if c = CHR ''>'' then (Data [], [HComment []])
      else comment_step [] c)"
| "tok_step CommentStartDash c =
     (if c = CHR ''-'' then (CommentEnd [], [])
      else if c = CHR ''>'' then (Data [], [HComment []])
      else comment_step ''-'' c)"
| "tok_step (CommentText d) c = comment_step d c"
| "tok_step (CommentEndDash d) c =
     (if c = CHR ''-'' then (CommentEnd d, []) else comment_step (d @ ''-'') c)"
| "tok_step (CommentEnd d) c =
     (if c = CHR ''>'' then (Data [], [HComment d])
      else if c = CHR ''!'' then (CommentEndBang d, [])
      else if c = CHR ''-'' then (CommentEnd (d @ ''-''), [])
      else comment_step (d @ ''--'') c)"
| "tok_step (CommentEndBang d) c =
     (if c = CHR ''-'' then (CommentEndDash (d @ ''--!''), [])
      else if c = CHR ''>'' then (Data [], [HComment d])
      else comment_step (d @ ''--!'') c)"

text \<open>The end of the input: pending text and comments are emitted, an unfinished tag is dropped.\<close>

fun tok_eof :: "tstate \<Rightarrow> htoken list" where
  "tok_eof (Data txt) = flush_text txt"
| "tok_eof (TagOpen txt) = flush_text (txt @ ''<'')"
| "tok_eof (EndTagOpen txt) = flush_text (txt @ ''</'')"
| "tok_eof (MarkupOpen b) = [HComment b]"
| "tok_eof (BogusComment d) = [HComment d]"
| "tok_eof CommentStart = [HComment []]"
| "tok_eof CommentStartDash = [HComment []]"
| "tok_eof (CommentText d) = [HComment d]"
| "tok_eof (CommentEndDash d) = [HComment d]"
| "tok_eof (CommentEnd d) = [HComment d]"
| "tok_eof (CommentEndBang d) = [HComment d]"
| "tok_eof _ = []"

fun html_tokens :: "tstate \<Rightarrow> string \<Rightarrow> htoken list" where
  "html_tokens s [] = tok_eof s"
| "html_tokens s (c # cs) = (case tok_step s c of (s', out) \<Rightarrow> out @ html_tokens s' cs)"

text \<open>
  Tree construction, for a fragment parsed in a \<open>div\<close>. Open elements are kept innermost
  first, each with its children so far in reverse; \<open>r\<close> holds the (reversed) children of
  the \<open>div\<close> itself.
\<close>

type_synonym frame = "string \<times> (string \<times> string) list \<times> node list"

definition void_tags :: "string list" where
  "void_tags =
     [''area'', ''base'', ''basefont'', ''bgsound'', ''br'', ''embed'', ''hr'', ''img'', ''input'',
      ''keygen'', ''link'', ''meta'', ''param'', ''source'', ''track'', ''wbr'']"

definition ignored_start_tags :: "string list" where
  "ignored_start_tags =
     [''caption'', ''col'', ''colgroup'', ''frame'', ''frameset'', ''head'', ''html'', ''body'',
      ''tbody'', ''td'', ''tfoot'', ''th'', ''thead'', ''tr'']"

text \<open>Character data joins the text node before it, if there is one.\<close>

fun add_text :: "string \<Rightarrow> node list \<Rightarrow> node list" where
  "add_text s (TextNode t # ns) = TextNode (t @ s) # ns"
| "add_text s ns = TextNode s # ns"

fun insert_node :: "(node list \<Rightarrow> node list) \<Rightarrow> frame list \<times> node list \<Rightarrow> frame list \<times> node list" where
  "insert_node f ([], r) = ([], f r)"
| "insert_node f ((tg, as, ks) # fs, r) = ((tg, as, f ks) # fs, r)"

fun add_pending :: "node option \<Rightarrow> node list \<Rightarrow> node list" where
  "add_pending None ks = ks"
| "add_pending (Some k) ks = k # ks"

text \<open>
  An end tag closes the open elements up to the innermost one of its name; \<open>c\<close> is the
  element just closed, on its way into its parent.
\<close>

fun pop_to :: "string \<Rightarrow> node option \<Rightarrow> frame list \<Rightarrow> node list \<Rightarrow> frame list \<times> node list" where
  "pop_to n c [] r = ([], add_pending c r)"
| "pop_to n c ((tg, as, ks) # fs) r =
     (if tg = n then insert_node (Cons (Element tg as (rev (add_pending c ks)))) (fs, r)
      else pop_to n (Some (Element tg as (rev (add_pending c ks)))) fs r)"

text \<open>The end of the input closes every open element.\<close>

fun finish :: "node option \<Rightarrow> frame list \<Rightarrow> node list \<Rightarrow> node list" where
  "finish c [] r = rev (add_pending c r)"
| "finish c ((tg, as, ks) # fs) r = finish (Some (Element tg as (rev (add_pending c ks)))) fs r"

text \<open>
  Inside \<open>svg\<close> an attribute name that SVG writes in mixed case gets that form back,
  the tokenizer having lowercased it.
\<close>

definition svg_attr_names :: "string list" where
  "svg_attr_names =
     [''attributeName'', ''attributeType'', ''baseFrequency'', ''baseProfile'',
      ''calcMode'', ''clipPathUnits'', ''diffuseConstant'', ''edgeMode'', ''filterUnits'',
      ''glyphRef'', ''gradientTransform'', ''gradientUnits'', ''kernelMatrix'',
      ''kernelUnitLength'', ''keyPoints'', ''keySplines'', ''keyTimes'', ''lengthAdjust'',
      ''limitingConeAngle'', ''markerHeight'', ''markerUnits'', ''markerWidth'',
      ''maskContentUnits'', ''maskUnits'', ''numOctaves'', ''pathLength'',
      ''patternContentUnits'', ''patternTransform'', ''patternUnits'', ''pointsAtX'',
      ''pointsAtY'', ''pointsAtZ'', ''preserveAlpha'', ''preserveAspectRatio'',
      ''primitiveUnits'', ''refX'', ''refY'', ''repeatCount'', ''repeatDur'',
      ''requiredExtensions'', ''requiredFeatures'', ''specularConstant'',
      ''specularExponent'', ''spreadMethod'', ''startOffset'', ''stdDeviation'',
      ''stitchTiles'', ''surfaceScale'', ''systemLanguage'', ''tableValues'', ''targetX'',
      ''targetY'', ''textLength'', ''viewBox'', ''viewTarget'', ''xChannelSelector'',
      ''yChannelSelector'', ''zoomAndPan'']"

definition adjust_svg_attr :: "string \<Rightarrow> string" where
  "adjust_svg_attr k = (case map_of (map (\<lambda>n. (map lower n, n)) svg_attr_names) k of
                          None \<Rightarrow> k
                        | Some n \<Rightarrow> n)"

definition adjust_svg_attrs :: "(string \<times> string) list \<Rightarrow> (string \<times> string) list" where
  "adjust_svg_attrs as = map (\<lambda>(k, v). (adjust_svg_attr k, v)) as"

text \<open>The element of this tag, under these open elements, is \<open>svg\<close> or inside one.\<close>

definition in_svg :: "string \<Rightarrow> frame list \<Rightarrow> bool" where
  "in_svg tg fs \<longleftrightarrow> tg = ''svg'' \<or> ''svg'' \<in> fst ` set fs"

text \<open>
  One token. Inside \<open>svg\<close> a start tag opens an element, or is the whole element when
  it is self-closing. Elsewhere a start tag is left out, is the whole element (a void
  element), or opens an element.
\<close>

fun tree_step :: "htoken \<Rightarrow> frame list \<times> node list \<Rightarrow> frame list \<times> node list" where
  "tree_step (HText s) st = insert_node (add_text s) st"
| "tree_step (HComment d) st = insert_node (Cons (CommentNode d)) st"
| "tree_step (HStart tg as sc) (fs, r) =
     (if in_svg tg fs then
        (if sc then insert_node (Cons (Element tg (adjust_svg_attrs as) [])) (fs, r)
         else ((tg, adjust_svg_attrs as, []) # fs, r))
      else if tg \<in> set ignored_start_tags then (fs, r)
      else if tg \<in> set void_tags then insert_node (Cons (Element tg as [])) (fs, r)
      else ((tg, as, []) # fs, r))"
| "tree_step (HEnd tg) (fs, r) =
     (if tg \<in> fst ` set fs then pop_to tg None fs r else (fs, r))"

fun html_tree :: "htoken list \<Rightarrow> frame list \<times> node list \<Rightarrow> node list" where
  "html_tree [] (fs, r) = finish None fs r"
| "html_tree (t # ts) st = html_tree ts (tree_step t st)"

text \<open>\<open>div.innerHTML = s\<close>: the children the \<open>div\<close> has afterwards.\<close>

definition parse_fragment :: "string \<Rightarrow> node list" where
  "parse_fragment s = html_tree (html_tokens (Data []) s) ([], [])"

subsection \<open>Reading the DOM\<close>

text \<open>\<open>node.textContent\<close>.\<close>

fun textContent :: "node \<Rightarrow> string" where
  "textContent (TextNode s) = s"
| "textContent (CommentNode d) = []"
| "textContent (Element tg as ks) = concat (map textContent ks)"

text \<open>\<open>element.getAttribute(k)\<close>.\<close>

fun getAttribute :: "string \<Rightarrow> node \<Rightarrow> string option" where
  "getAttribute k (Element tg as ks) = map_of as k"
| "getAttribute k _ = None"

text \<open>The tokens of a \<open>class\<close> attribute, and the selector \<open>.cls\<close> on one node.\<close>

fun split_ws :: "string \<Rightarrow> string list" where
  "split_ws [] = [[]]"
| "split_ws (c # cs) =
     (if is_html_ws c then [] # split_ws cs
      else (case split_ws cs of
              [] \<Rightarrow> [[c]]
            | x # xs \<Rightarrow> (c # x) # xs))"

fun has_class :: "string \<Rightarrow> node \<Rightarrow> bool" where
  "has_class cls (Element tg as ks) =
     (case map_of as ''class'' of
        None \<Rightarrow> False
      | Some v \<Rightarrow> cls \<in> set (split_ws v))"
| "has_class cls _ = False"

text \<open>Some element strictly below the node matches \<open>.cls\<close>.\<close>

fun has_class_below :: "string \<Rightarrow> node \<Rightarrow> bool" where
  "has_class_below cls (Element tg as ks) =
     list_ex (\<lambda>k. has_class cls k \<or> has_class_below cls k) ks"
| "has_class_below cls _ = False"

section \<open>The script\<close>

text \<open>
  The methods of \<open>GitHubPRFilter\<close>, each under its own name.
  A method that reads or changes the page takes the world and returns the world it leaves.
\<close>

subsection \<open>The location\<close>

text \<open>Lines 61 to 63.\<close>

definition isPullRequestPage :: "world \<Rightarrow> bool" where
  "isPullRequestPage w = js_includes (pathname w) ''/pulls''"

text \<open>Lines 81 to 83: the first two segments of the path after its leading slash.\<close>

definition getRepoPath :: "world \<Rightarrow> string" where
  "getRepoPath w = js_join ''/'' (js_slice 1 3 (js_split CHR ''/'' (pathname w)))"

subsection \<open>Persistence\<close>

text \<open>Lines 85 to 87.\<close>

definition getStorageKey :: "world \<Rightarrow> string" where
  "getStorageKey w = STORAGE_PREFIX @ ''global''"

text \<open>
  A filter is an object \<open>{ label, query }\<close> (line 122), and a filter sequence the array
  of such objects. \<open>this.filters\<close> itself is a \<open>jsvalue\<close>: it holds whatever
  \<open>JSON.parse\<close> returned for the stored text.
\<close>

datatype Filter = Filter (label: string) (query: string)

definition filter_obj :: "Filter \<Rightarrow> jsvalue" where
  "filter_obj f = JObj [(''label'', JStr (label f)), (''query'', JStr (query f))]"

definition filter_list :: "Filter list \<Rightarrow> jsvalue" where
  "filter_list fs = JArr (map filter_obj fs)"

text \<open>
  The body of the \<open>try\<close> in \<open>loadFilters\<close>, lines 91 and 92. The test \<open>stored ?\<close>
  sends \<open>null\<close> (no such key) and the empty string to \<open>[]\<close>; every other string is
  parsed.
\<close>

definition loadFilters_try :: "world \<Rightarrow> js_error + jsvalue" where
  "loadFilters_try w =
     (case localStorage_getItem (getStorageKey w) w of
        Inl e \<Rightarrow> Inl e
      | Inr None \<Rightarrow> Inr (JArr [])
      | Inr (Some stored) \<Rightarrow>
          if stored = [] then Inr (JArr [])
          else (case JSON_parse stored of
                  None \<Rightarrow> Inl SyntaxError
                | Some v \<Rightarrow> Inr v))"

text \<open>Lines 89 to 97: the \<open>catch\<close> logs the exception and returns \<open>[]\<close>.\<close>

definition loadFilters :: "world \<Rightarrow> jsvalue result" where
  "loadFilters w =
     (case loadFilters_try w of
        Inr v \<Rightarrow> (Inr v, w)
      | Inl e \<Rightarrow> (Inr (JArr []), console_error ''Error loading filters:'' e w))"

text \<open>Lines 99 to 105: the \<open>catch\<close> logs the exception; nothing was written.\<close>

definition saveFilters :: "world \<Rightarrow> unit result" where
  "saveFilters w =
     (case localStorage_setItem (getStorageKey w) (JSON_stringify (filters w)) w of
        Inr w' \<Rightarrow> (Inr (), w')
      | Inl e \<Rightarrow> (Inr (), console_error ''Error saving filters:'' e w))"

subsection \<open>Building the injected elements\<close>

text \<open>
  Lines 107 to 113, which nothing calls. \<open>option.textContent = label\<close> makes the label
  the one text child of the element, whatever characters it has; the setters of \<open>value\<close>
  and \<open>disabled\<close> write the attributes of those names.
\<close>

definition createOption :: "string \<Rightarrow> string \<Rightarrow> bool \<Rightarrow> node" where
  "createOption lbl v disabled =
     Element ''option''
       ((''value'', v) # (if disabled then [(''disabled'', [])] else []))
       (if lbl = [] then [] else [TextNode lbl])"

text \<open>
  Lines 140 to 144: the first child of a \<open>div\<close> whose \<open>innerHTML\<close> is the trimmed
  markup, \<open>None\<close> for the \<open>null\<close> of a \<open>div\<close> without children.
\<close>

definition createElementFromHtml :: "string \<Rightarrow> node option" where
  "createElementFromHtml html =
     (case parse_fragment (js_trim html) of [] \<Rightarrow> None | n # ns \<Rightarrow> Some n)"

text \<open>The path data of the check mark in an item (line 152).\<close>

definition check_icon_path :: string where
  \<open>check_icon_path =
     ''M13.78 4.22a.75.75 0 0 1 0 1.06l-7.25 7.25a.75.75 0 0 1-1.06 0L2.22 9.28a.751.751 0'' @
     '' 0 1 .018-1.042.751.751 0 0 1 1.042-.018L6 10.94l6.72-6.72a.75.75 0 0 1 1.06 0Z''\<close>

text \<open>The path data of the heart on the button (line 165).\<close>

definition heart_icon_path :: string where
  \<open>heart_icon_path =
     ''M433.601,67.001c-24.7-24.7-57.4-38.2-92.3-38.2s-67.7,13.6-92.4,38.3l-12.9,12.9'' @
     ''l-13.1-13.1 c-24.7-24.7-57.6-38.4-92.5-38.4c-34.8,0-67.6,13.6-92.2,38.2'' @
     ''c-24.7,24.7-38.3,57.5-38.2,92.4c0,34.9,13.7,67.6,38.4,92.3 l187.8,187.8'' @
     ''c2.6,2.6,6.1,4,9.5,4c3.4,0,6.9-1.3,9.5-3.9l188.2-187.5c24.7-24.7,38.3-57.5,38.3-92.4'' @
     '' C471.801,124.501,458.301,91.701,433.601,67.001z M414.401,232.701l-178.7,178'' @
     ''l-178.3-178.3c-19.6-19.6-30.4-45.6-30.4-73.3 s10.7-53.7,30.3-73.2'' @
     ''c19.5-19.5,45.5-30.3,73.1-30.3c27.7,0,53.8,10.8,73.4,30.4l22.6,22.6'' @
     ''c5.3,5.3,13.8,5.3,19.1,0l22.4-22.4 c19.6-19.6,45.7-30.4,73.3-30.4'' @
     ''c27.6,0,53.6,10.8,73.2,30.3c19.6,19.6,30.3,45.6,30.3,73.3 '' @
     ''C444.801,187.101,434.001,213.101,414.401,232.701z''\<close>

text \<open>The template literal of \<open>createFilterItem\<close>, lines 149 to 156.\<close>

definition itemHtml :: "string \<Rightarrow> string \<Rightarrow> string \<Rightarrow> string \<Rightarrow> string" where
  \<open>itemHtml checked repoPath encodedQuery lbl =
     ''\<newline>'' @
     ''      <a class="SelectMenu-item custom-item" role="menuitemradio" aria-checked="'' @
     checked @ ''" href="/'' @ repoPath @ ''/issues?q='' @ encodedQuery @
     ''" data-turbo-frame="repo-content-turbo-frame">\<newline>'' @
     ''        <svg aria-hidden="true" height="16" viewBox="0 0 16 16" version="1.1" width="16"'' @
     '' data-view-component="true"'' @
     '' class="octicon octicon-check SelectMenu-icon SelectMenu-icon--check">\<newline>'' @
     ''          <path d="'' @ check_icon_path @ ''"></path>\<newline>'' @
     ''        </svg>\<newline>'' @
     ''        '' @ lbl @ ''\<newline>'' @
     ''      </a>\<newline>'' @
     ''    ''\<close>

text \<open>The template literal of \<open>createAddToFavButton\<close>, lines 162 to 168.\<close>

definition favButtonHtml :: string where
  \<open>favButtonHtml =
     ''\<newline>'' @
     ''      <button id="fav-button"'' @
     '' class="Button Button--iconOnly Button--invisible Button--medium"'' @
     '' data-view-component="true" type="button" variant="small" id="favorite-query-button"'' @
     '' role="button">\<newline>'' @
     ''        <svg class="octicon octicon-search subnav-search-icon"'' @
     '' data-view-component="true" width="16" version="1.1" viewBox="0 0 471.701 471.701"'' @
     '' height="16" aria-hidden="true">\<newline>'' @
     ''            <path d="'' @ heart_icon_path @ ''"></path>\<newline>'' @
     ''        </svg>\<newline>'' @
     ''      </button>\<newline>'' @
     ''    ''\<close>

text \<open>
  Lines 146 to 159. Line 147 throws what \<open>encodeURIComponent\<close> throws, before any
  markup is built. \<open>${checked}\<close> writes the boolean as \<open>true\<close> or \<open>false\<close>.
\<close>

definition createFilterItem :: "world \<Rightarrow> string \<Rightarrow> string \<Rightarrow> bool \<Rightarrow> js_error + node option" where
  "createFilterItem w lbl qry checked =
     (case encodeURIComponent qry of
        Inl e \<Rightarrow> Inl e
      | Inr encodedQuery \<Rightarrow>
          Inr (createElementFromHtml
                 (itemHtml (if checked then ''true'' else ''false'') (getRepoPath w)
                    encodedQuery lbl)))"

text \<open>
  \<open>createAddToFavButton\<close>: the button, or the \<open>TypeError\<close> of calling
  \<open>addEventListener\<close> on null. Its click listener is \<open>favButton_click\<close> below.
\<close>

definition createAddToFavButton :: "js_error + node" where
  "createAddToFavButton =
     (case createElementFromHtml favButtonHtml of
        None \<Rightarrow> Inl TypeError
      | Some b \<Rightarrow> Inr b)"

subsection \<open>Rendering\<close>

text \<open>
  Lines 184 to 187: \<open>querySelectorAll\<close> lists, in document order, every element below
  the dropdown that matches \<open>.custom-item\<close>, and \<open>forEach\<close> hands each to
  \<open>removeChild\<close>. A matching child of the dropdown is removed. A matching element
  further down is not a child of the dropdown: \<open>removeChild\<close> throws
  \<open>NotFoundError\<close> there, which ends the loop with the children before it already
  removed and the rest untouched.
\<close>

fun remove_custom_items :: "node list \<Rightarrow> js_error option \<times> node list" where
  "remove_custom_items [] = (None, [])"
| "remove_custom_items (k # ks) =
     (if has_class ''custom-item'' k then
        (if has_class_below ''custom-item'' k then (Some NotFoundError, ks)
         else remove_custom_items ks)
      else if has_class_below ''custom-item'' k then (Some NotFoundError, k # ks)
      else (case remove_custom_items ks of (e, ks') \<Rightarrow> (e, k # ks')))"

text \<open>\<open>clearOldItems\<close>, on the element \<open>initializeDropdown\<close> has just looked up.\<close>

definition clearOldItems :: "world \<Rightarrow> unit result" where
  "clearOldItems w =
     (case dropdown w of
        None \<Rightarrow> (Inr (), w)
      | Some ks \<Rightarrow>
          (case remove_custom_items ks of
             (None, ks') \<Rightarrow> (Inr (), w\<lparr>dropdown := Some ks'\<rparr>)
           | (Some e, ks') \<Rightarrow> (Inl e, w\<lparr>dropdown := Some ks'\<rparr>)))"

text \<open>One stored filter as the renderer reads it: \<open>filter.label\<close> and \<open>filter.query\<close>.\<close>

fun filter_of :: "jsvalue \<Rightarrow> Filter option" where
  "filter_of (JObj kvs) =
     (case (map_of kvs ''label'', map_of kvs ''query'') of
        (Some (JStr l), Some (JStr q)) \<Rightarrow> Some (Filter l q)
      | _ \<Rightarrow> None)"
| "filter_of _ = None"

text \<open>
  Lines 200 and 201 on \<open>this.filters\<close>: the filters the loop will render, in stored
  order. \<open>null.length\<close> throws; a number, a boolean, an empty string and an object with
  no \<open>length\<close> skip the loop; a non-empty string has a \<open>length\<close> but no \<open>reverse\<close>.
\<close>

fun filters_to_render :: "jsvalue \<Rightarrow> js_error + Filter list" where
  "filters_to_render JNull = Inl TypeError"
| "filters_to_render (JBool b) = Inr []"
| "filters_to_render (JNum n) = Inr []"
| "filters_to_render (JStr s) = (if s = [] then Inr [] else Inl TypeError)"
| "filters_to_render (JObj kvs) =
     (if map_of kvs ''length'' = None then Inr [] else Inl OutsideModel)"
| "filters_to_render (JArr vs) =
     (case those (map filter_of vs) of
        Some fs \<Rightarrow> Inr fs
      | None \<Rightarrow> Inl OutsideModel)"

text \<open>\<open>filtersDropdown.prepend(x)\<close>; \<open>prepend(null)\<close> inserts the text \<open>null\<close>.\<close>

definition dropdown_prepend :: "node option \<Rightarrow> world \<Rightarrow> world" where
  "dropdown_prepend x w =
     w\<lparr>dropdown :=
         map_option (Cons (case x of None \<Rightarrow> TextNode ''null'' | Some n \<Rightarrow> n)) (dropdown w)\<rparr>"

text \<open>\<open>filterContainer.appendChild(n)\<close>.\<close>

definition subnav_appendChild :: "node \<Rightarrow> world \<Rightarrow> world" where
  "subnav_appendChild n w = w\<lparr>subnav := map_option (\<lambda>ks. ks @ [n]) (subnav w)\<rparr>"

text \<open>
  The loop of lines 201 to 203 over the (reversed) filters: the item of each is built and
  put in front of the dropdown's children. An exception of \<open>createFilterItem\<close> ends
  the loop, with the items before it in place.
\<close>

fun render_items :: "Filter list \<Rightarrow> world \<Rightarrow> unit result" where
  "render_items [] w = (Inr (), w)"
| "render_items (f # fs) w =
     (case createFilterItem w (label f) (query f) False of
        Inl e \<Rightarrow> (Inl e, w)
      | Inr x \<Rightarrow> render_items fs (dropdown_prepend x w))"

text \<open>
  Lines 190 to 207. An exception leaves the method at once: what was done before it stays,
  what comes after it (the button, for one) does not happen.
\<close>

definition initializeDropdown :: "world \<Rightarrow> unit result" where
  "initializeDropdown w =
     (case dropdown w of
        None \<Rightarrow> (Inr (), w)
      | Some ks \<Rightarrow>
          (case clearOldItems w of
             (Inl e, w1) \<Rightarrow> (Inl e, w1)
           | (Inr u, w1) \<Rightarrow>
               (case subnav w1 of
                  None \<Rightarrow> (Inr (), w1)
                | Some sk \<Rightarrow>
                    (case filters_to_render (filters w1) of
                       Inl e \<Rightarrow> (Inl e, w1)
                     | Inr fs \<Rightarrow>
                         (case render_items (rev fs) w1 of
                            (Inl e, w2) \<Rightarrow> (Inl e, w2)
                          | (Inr u, w2) \<Rightarrow>
                              (case createAddToFavButton of
                                 Inl e \<Rightarrow> (Inl e, w2)
                               | Inr b \<Rightarrow> (Inr (), subnav_appendChild b w2)))))))"

subsection \<open>Adding a filter\<close>

text \<open>\<open>prompt(message)\<close>: the dialog is shown and the user's next answer returned.\<close>

definition js_prompt :: "string \<Rightarrow> world \<Rightarrow> string option \<times> world" where
  "js_prompt message w =
     (case promptReplies w of
        [] \<Rightarrow> (None, w\<lparr>trace := trace w @ [Prompted message]\<rparr>)
      | r # rs \<Rightarrow> (r, w\<lparr>promptReplies := rs, trace := trace w @ [Prompted message]\<rparr>))"

text \<open>\<open>promptAsync\<close> resolves with \<open>result || ""\<close>.\<close>

definition promptAsync :: "string \<Rightarrow> world \<Rightarrow> string \<times> world" where
  "promptAsync message w =
     (case js_prompt message w of
        (None, w') \<Rightarrow> ([], w')
      | (Some s, w') \<Rightarrow> (s, w'))"

text \<open>\<open>this.filters.push(x)\<close>: only an array has \<open>push\<close>.\<close>

definition filters_push :: "jsvalue \<Rightarrow> world \<Rightarrow> js_error + world" where
  "filters_push x w =
     (case filters w of
        JArr vs \<Rightarrow> Inr (w\<lparr>filters := JArr (vs @ [x])\<rparr>)
      | _ \<Rightarrow> Inl TypeError)"

text \<open>
  The body of the \<open>try\<close> in \<open>addNewFilter\<close>; the two \<open>await\<close>s are taken in one step.
\<close>

definition addNewFilter_try :: "string \<Rightarrow> world \<Rightarrow> unit result" where
  "addNewFilter_try qry w =
     (if qry = [] then (Inr (), w)
      else (case promptAsync ''Enter filter label:'' w of
              (lbl, w1) \<Rightarrow>
                if lbl = [] then (Inr (), w1)
                else (case filters_push (filter_obj (Filter lbl qry)) w1 of
                        Inl e \<Rightarrow> (Inl e, w1)
                      | Inr w2 \<Rightarrow>
                          (case saveFilters w2 of
                             (Inl e, w3) \<Rightarrow> (Inl e, w3)
                           | (Inr u, w3) \<Rightarrow> initializeDropdown w3))))"

text \<open>Lines 115 to 131: the \<open>catch\<close> logs what the body throws.\<close>

definition addNewFilter :: "string \<Rightarrow> world \<Rightarrow> unit result" where
  "addNewFilter qry w =
     (case addNewFilter_try qry w of
        (Inl OutsideModel, w') \<Rightarrow> (Inl OutsideModel, w')
      | (Inl e, w') \<Rightarrow> (Inr (), console_error ''Error adding filter:'' e w')
      | (Inr u, w') \<Rightarrow> (Inr (), w'))"

text \<open>
  The click listener of the button: \<open>input.value\<close> throws when the search input is not
  there.
\<close>

definition favButton_click :: "world \<Rightarrow> unit result" where
  "favButton_click w =
     (case searchInput w of
        None \<Rightarrow> (Inl TypeError, w)
      | Some v \<Rightarrow> addNewFilter v w)"

subsection \<open>Navigation and retries\<close>

text \<open>\<open>setTimeout(cb, delay)\<close>.\<close>

definition setTimeout :: "callback \<Rightarrow> nat \<Rightarrow> world \<Rightarrow> world" where
  "setTimeout cb delay w = w\<lparr>timers := timers w @ [(clock w + delay, cb)]\<rparr>"

text \<open>Lines 65 to 79.\<close>

definition retryInitialization :: "world \<Rightarrow> unit result" where
  "retryInitialization w =
     (if retryAttempts w \<ge> MAX_RETRY_ATTEMPTS
      then (Inr (), js_warn ''Failed to initialize GitHub PR Filter after maximum retry attempts'' w)
      else (Inr (), setTimeout RetryCheck RETRY_DELAY (w\<lparr>retryAttempts := retryAttempts w + 1\<rparr>)))"

text \<open>The arrow function of lines 72 to 78.\<close>

fun run_callback :: "callback \<Rightarrow> world \<Rightarrow> unit result" where
  "run_callback RetryCheck w =
     (if subnav w \<noteq> None then initializeDropdown w else retryInitialization w)"

text \<open>
  Lines 43 to 59. This is what \<open>init\<close> and each of the three navigation triggers call:
  the mutation observer, \<open>popstate\<close> and \<open>turbo:render\<close>.
\<close>

definition handleLocationChange :: "world \<Rightarrow> unit result" where
  "handleLocationChange w =
     (let w0 = w\<lparr>retryAttempts := 0\<rparr> in
      if \<not> isPullRequestPage w0 then (Inr (), w0)
      else (case loadFilters w0 of
              (Inl e, w1) \<Rightarrow> (Inl e, w1)
            | (Inr v, w1) \<Rightarrow>
                (let w2 = w1\<lparr>filters := v\<rparr> in
                 if subnav w2 \<noteq> None then initializeDropdown w2
                 else retryInitialization w2)))"

text \<open>
  The timer queue: the pending timer that is due first (the oldest among equals) fires;
  the clock moves to its due time. \<open>None\<close> when no timer is pending.
\<close>

fun next_timer :: "(nat \<times> callback) list \<Rightarrow> (nat \<times> callback) option" where
  "next_timer [] = None"
| "next_timer (t # ts) =
     (case next_timer ts of
        None \<Rightarrow> Some t
      | Some u \<Rightarrow> if fst u < fst t then Some u else Some t)"

definition fire_timer :: "world \<Rightarrow> (unit result) option" where
  "fire_timer w =
     (case next_timer (timers w) of
        None \<Rightarrow> None
      | Some (due, cb) \<Rightarrow>
          Some (run_callback cb
                  (w\<lparr>timers := remove1 (due, cb) (timers w),
                     clock := max (clock w) due,
                     trace := trace w @ [TimerFired (max (clock w) due)]\<rparr>)))"

text \<open>
  Timer callbacks run one after the other until none is pending, at most \<open>n\<close> of them.
  The browser reports an exception a callback throws and goes on; the result keeps the
  first.
\<close>

fun run_timers :: "nat \<Rightarrow> world \<Rightarrow> unit result" where
  "run_timers 0 w = (Inr (), w)"
| "run_timers (Suc n) w =
     (case fire_timer w of
        None \<Rightarrow> (Inr (), w)
      | Some (Inl e, w') \<Rightarrow> (case run_timers n w' of (r, w'') \<Rightarrow> (Inl e, w''))
      | Some (Inr u, w') \<Rightarrow> run_timers n w')"

section \<open>Notions the properties are stated with\<close>

text \<open>The tokens of the JSON text of a filter, and of a filter sequence between its brackets.\<close>

definition filter_tokens :: "Filter \<Rightarrow> jtoken list" where
  "filter_tokens f =
     [TLBrace, TString ''label'', TColon, TString (label f), TComma,
      TString ''query'', TColon, TString (query f), TRBrace]"

fun filters_tokens :: "Filter list \<Rightarrow> jtoken list" where
  "filters_tokens [] = []"
| "filters_tokens [f] = filter_tokens f"
| "filters_tokens (f # g # gs) = filter_tokens f @ TComma # filters_tokens (g # gs)"

text \<open>
  While a fragment is being built, its first node is settled as soon as the \<open>div\<close> has a
  child, and before that it is the outermost open element (or the element on its way into
  the \<open>div\<close>).
\<close>

definition rooted ::
  "string \<Rightarrow> (string \<times> string) list \<Rightarrow> node option \<Rightarrow> frame list \<Rightarrow> node list \<Rightarrow> bool" where
  "rooted tg as c fs r \<longleftrightarrow>
     (r \<noteq> [] \<and> (\<exists>k. last r = Element tg as k))
     \<or> (r = [] \<and> fs \<noteq> [] \<and> (\<exists>ks. last fs = (tg, as, ks)))
     \<or> (r = [] \<and> fs = [] \<and> (\<exists>k. c = Some (Element tg as k)))"

text \<open>The attributes of an item, and the icon inside it, as the parser delivers them.\<close>

definition item_attrs :: "string \<Rightarrow> string \<Rightarrow> (string \<times> string) list" where
  "item_attrs checked href =
     [(''class'', ''SelectMenu-item custom-item''), (''role'', ''menuitemradio''),
      (''aria-checked'', checked), (''href'', href),
      (''data-turbo-frame'', ''repo-content-turbo-frame'')]"

definition item_icon :: node where
  "item_icon =
     Element ''svg''
       [(''aria-hidden'', ''true''), (''height'', ''16''), (''viewBox'', ''0 0 16 16''),
        (''version'', ''1.1''), (''width'', ''16''), (''data-view-component'', ''true''),
        (''class'', ''octicon octicon-check SelectMenu-icon SelectMenu-icon--check'')]
       [TextNode ''\<newline>          '',
        Element ''path'' [(''d'', check_icon_path)] [],
        TextNode ''\<newline>        '']"

text \<open>
  The node \<open>prepend\<close> receives for a stored filter whose query can be encoded: the
  item, or the text \<open>null\<close> for a markup without a node.
\<close>

definition item_node :: "world \<Rightarrow> Filter \<Rightarrow> node" where
  "item_node w f =
     (case createFilterItem w (label f) (query f) False of
        Inr (Some n) \<Rightarrow> n
      | _ \<Rightarrow> TextNode ''null'')"

section \<open>Example pages\<close>

text \<open>
  A pull-request list page of repository \<open>org/repo\<close> right after loading: both mount
  points are there and empty, nothing is stored, no timer is pending.
\<close>

definition example_world :: world where
  "example_world =
     \<lparr>pathname = ''/org/repo/pulls'',
      dropdown = Some [],
      subnav = Some [],
      searchInput = Some ''is:open'',
      storageBlocked = False,
      storage = [],
      quota = 5242880,
      promptReplies = [],
      clock = 0,
      timers = [],
      trace = [],
      filters = JArr [],
      retryAttempts = 0\<rparr>"


definition one_filter :: world where
  "one_filter = example_world\<lparr>filters := filter_list [Filter ''bugs'' ''is:open'']\<rparr>"


section \<open>Properties\<close>

subsection \<open>Page classification\<close>

lemma js_includes_iff: "js_includes s p \<longleftrightarrow> (\<exists>pre post. s = pre @ p @ post)"
proof (induction s)
  case Nil
  show ?case by auto
next
  case (Cons c cs)
  show ?case
  proof
    assume "js_includes (c # cs) p"
    then consider "prefix p (c # cs)" | "js_includes cs p" by auto
    then show "\<exists>pre post. c # cs = pre @ p @ post"
    proof cases
      case 1
      then obtain post where "c # cs = p @ post" by (auto simp: prefix_def)
      then have "c # cs = [] @ p @ post" by simp
      then show ?thesis by blast
    next
      case 2
      with Cons.IH obtain pre post where "cs = pre @ p @ post" by blast
      then have "c # cs = (c # pre) @ p @ post" by simp
      then show ?thesis by blast
    qed
  next
    assume "\<exists>pre post. c # cs = pre @ p @ post"
    then obtain pre post where eq: "c # cs = pre @ p @ post" by blast
    show "js_includes (c # cs) p"
    proof (cases pre)
      case Nil
      with eq have "prefix p (c # cs)" by (simp add: prefix_def)
      then show ?thesis by simp
    next
      case (Cons d pre')
      with eq have "cs = pre' @ p @ post" by simp
      with Cons.IH have "js_includes cs p" by blast
      then show ?thesis by simp
    qed
  qed
qed

text \<open>
  C5. \<open>isPullRequestPage\<close> is the substring test: it holds exactly when the location path
  contains \<open>/pulls\<close> somewhere. So it is true for \<open>/org/repo/pulls\<close>, false for
  \<open>/org/repo/issues\<close>, and true for \<open>/org/repo/pulls-archive\<close>.
\<close>

theorem isPullRequestPage_substring:
  "isPullRequestPage w = (\<exists>pre post. pathname w = pre @ ''/pulls'' @ post)
   \<and> isPullRequestPage (w\<lparr>pathname := ''/org/repo/pulls''\<rparr>)
   \<and> \<not> isPullRequestPage (w\<lparr>pathname := ''/org/repo/issues''\<rparr>)
   \<and> isPullRequestPage (w\<lparr>pathname := ''/org/repo/pulls-archive''\<rparr>)"
proof -
  have "isPullRequestPage w = (\<exists>pre post. pathname w = pre @ ''/pulls'' @ post)"
    unfolding isPullRequestPage_def by (rule js_includes_iff)
  moreover have "isPullRequestPage (w\<lparr>pathname := ''/org/repo/pulls''\<rparr>)"
    by (simp add: isPullRequestPage_def)
  moreover have "\<not> isPullRequestPage (w\<lparr>pathname := ''/org/repo/issues''\<rparr>)"
    by (simp add: isPullRequestPage_def)
  moreover have "isPullRequestPage (w\<lparr>pathname := ''/org/repo/pulls-archive''\<rparr>)"
    by (simp add: isPullRequestPage_def)
  ultimately show ?thesis by blast
qed

subsection \<open>The JSON text of a filter sequence, written and read back\<close>

lemma hex_digit_val_all: "\<forall>k \<in> set [0..<16]. hex_val (hex_digit k) = Some k"
  by code_simp

lemma hex_val_hex_digit: "hex_val (hex_digit k) = Some (k mod 16)"
proof -
  have "k mod 16 \<in> set [0..<16]" by simp
  with hex_digit_val_all have "hex_val (hex_digit (k mod 16)) = Some (k mod 16)" by blast
  moreover have "hex_digit (k mod 16) = hex_digit k" by (simp add: hex_digit_def)
  ultimately show ?thesis by simp
qed

lemma hex_val_zero: "hex_val CHR ''0'' = Some 0"
  by (simp add: hex_val_def)

lemma lex_string_escape_char:
  assumes "lex_string cs = Some (s, r)"
  shows "lex_string (json_escape_char c @ cs) = Some (c # s, r)"
proof -
  consider (named) "c \<in> {CHR 0x22, CHR 0x5C, CHR 0x08, CHR 0x0C, CHR 0x0A, CHR 0x0D, CHR 0x09}"
    | (ctl) "c \<notin> {CHR 0x22, CHR 0x5C, CHR 0x08, CHR 0x0C, CHR 0x0A, CHR 0x0D, CHR 0x09}" "(of_char c :: nat) < 32"
    | (plain) "c \<notin> {CHR 0x22, CHR 0x5C, CHR 0x08, CHR 0x0C, CHR 0x0A, CHR 0x0D, CHR 0x09}" "\<not> (of_char c :: nat) < 32"
    by blast
  then show ?thesis
  proof cases
    case named
    then show ?thesis using assms
      by (auto simp: json_escape_char_def simple_escape_def)
  next
    case ctl
    have n: "(of_char c :: nat) div 16 mod 16 = of_char c div 16" using ctl(2) by simp
    have "((0 * 16 + 0) * 16 + of_char c div 16) * 16 + of_char c mod 16 = (of_char c :: nat)"
      by simp
    then have h: "hex4 [CHR ''0'', CHR ''0'', hex_digit (of_char c div 16), hex_digit (of_char c)]
        = Some (of_char c)"
      by (simp add: hex_val_hex_digit hex_val_zero n)
    have u: "utf8 (of_char c) = [c]" using ctl(2) by (simp add: utf8_def)
    show ?thesis using ctl assms h u
      by (simp add: json_escape_char_def)
  next
    case plain
    then show ?thesis using assms
      by (simp add: json_escape_char_def)
  qed
qed

lemma lex_string_escaped:
  "lex_string (concat (map json_escape_char s) @ CHR 0x22 # r) = Some (s, r)"
proof (induction s)
  case Nil
  show ?case by simp
next
  case (Cons c s)
  show ?case using lex_string_escape_char [OF Cons.IH, of c] by simp
qed

lemma json_lex_quote:
  "json_lex (json_quote s @ r) = map_option (Cons (TString s)) (json_lex r)"
  by (simp add: json_quote_def is_json_ws_def lex_string_escaped)

lemma json_lex_quote_Some:
  "json_lex r = Some ts \<Longrightarrow> json_lex (json_quote s @ r) = Some (TString s # ts)"
  by (simp add: json_lex_quote)

lemma json_lex_filter_obj:
  assumes "json_lex r = Some ts"
  shows "json_lex (JSON_stringify (filter_obj f) @ r) = Some (filter_tokens f @ ts)"
proof -
  have 1: "json_lex (CHR ''}'' # r) = Some (TRBrace # ts)"
    using assms by (simp add: is_json_ws_def)
  have 2: "json_lex (json_quote (query f) @ CHR ''}'' # r) = Some (TString (query f) # TRBrace # ts)"
    by (rule json_lex_quote_Some [OF 1])
  have 3: "json_lex (CHR '':'' # json_quote (query f) @ CHR ''}'' # r)
      = Some (TColon # TString (query f) # TRBrace # ts)"
    using 2 by (simp add: is_json_ws_def)
  have 4: "json_lex (json_quote ''query'' @ CHR '':'' # json_quote (query f) @ CHR ''}'' # r)
      = Some (TString ''query'' # TColon # TString (query f) # TRBrace # ts)"
    by (rule json_lex_quote_Some [OF 3])
  have 5: "json_lex (CHR '','' # json_quote ''query'' @ CHR '':'' # json_quote (query f) @ CHR ''}'' # r)
      = Some (TComma # TString ''query'' # TColon # TString (query f) # TRBrace # ts)"
    using 4 by (simp add: is_json_ws_def)
  have 6: "json_lex (json_quote (label f) @ CHR '','' # json_quote ''query'' @ CHR '':'' #
        json_quote (query f) @ CHR ''}'' # r)
      = Some (TString (label f) # TComma # TString ''query'' # TColon # TString (query f) # TRBrace # ts)"
    by (rule json_lex_quote_Some [OF 5])
  have 7: "json_lex (CHR '':'' # json_quote (label f) @ CHR '','' # json_quote ''query'' @ CHR '':'' #
        json_quote (query f) @ CHR ''}'' # r)
      = Some (TColon # TString (label f) # TComma # TString ''query'' # TColon # TString (query f) # TRBrace # ts)"
    using 6 by (simp add: is_json_ws_def)
  have 8: "json_lex (json_quote ''label'' @ CHR '':'' # json_quote (label f) @ CHR '','' #
        json_quote ''query'' @ CHR '':'' # json_quote (query f) @ CHR ''}'' # r)
      = Some (TString ''label'' # TColon # TString (label f) # TComma # TString ''query'' # TColon #
          TString (query f) # TRBrace # ts)"
    by (rule json_lex_quote_Some [OF 7])
  have 9: "json_lex (CHR ''{'' # json_quote ''label'' @ CHR '':'' # json_quote (label f) @ CHR '','' #
        json_quote ''query'' @ CHR '':'' # json_quote (query f) @ CHR ''}'' # r)
      = Some (filter_tokens f @ ts)"
    using 8 by (simp add: is_json_ws_def filter_tokens_def)
  have "JSON_stringify (filter_obj f) @ r =
      CHR ''{'' # json_quote ''label'' @ CHR '':'' # json_quote (label f) @ CHR '','' #
        json_quote ''query'' @ CHR '':'' # json_quote (query f) @ CHR ''}'' # r"
    by (simp add: filter_obj_def)
  with 9 show ?thesis by simp
qed

lemma json_lex_filters:
  assumes "json_lex r = Some ts"
  shows "json_lex (js_join '','' (map (\<lambda>a. JSON_stringify (filter_obj a)) fs) @ r) =
     Some (filters_tokens fs @ ts)"
proof (induction fs rule: filters_tokens.induct)
  case 1
  show ?case using assms by simp
next
  case (2 f)
  show ?case using json_lex_filter_obj [OF assms] by simp
next
  case (3 f g gs)
  have "json_lex (CHR '','' # js_join '','' (map (\<lambda>a. JSON_stringify (filter_obj a)) (g # gs)) @ r) =
      Some (TComma # filters_tokens (g # gs) @ ts)"
    using "3.IH" by (simp add: is_json_ws_def)
  from json_lex_filter_obj [OF this, of f] show ?case by simp
qed

lemma json_lex_filter_list:
  "json_lex (JSON_stringify (filter_list fs)) = Some (TLBrack # filters_tokens fs @ [TRBrack])"
proof -
  have "json_lex '']'' = Some [TRBrack]" by (simp add: is_json_ws_def)
  from json_lex_filters [OF this, of fs] show ?thesis
    by (simp add: filter_list_def is_json_ws_def comp_def)
qed

lemma json_run_append:
  "json_run (ts @ us) cfg = (case json_run ts cfg of None \<Rightarrow> None | Some c \<Rightarrow> json_run us c)"
  by (induction ts arbitrary: cfg) (auto split: option.splits)

lemma json_run_filter:
  assumes "s = ExpValue \<or> s = ExpValueOrEnd"
  shows "json_run (filter_tokens f) (s, FArr vs # st) =
     Some (ExpCommaOrEnd, FArr (vs @ [filter_obj f]) # st)"
  using assms by (auto simp: filter_tokens_def filter_obj_def json_step_def)

lemma json_run_filters:
  assumes "s = ExpValue \<or> s = ExpValueOrEnd" "fs \<noteq> []"
  shows "json_run (filters_tokens fs) (s, FArr vs # st) =
     Some (ExpCommaOrEnd, FArr (vs @ map filter_obj fs) # st)"
  using assms
proof (induction fs arbitrary: s vs rule: filters_tokens.induct)
  case 1
  then show ?case by simp
next
  case (2 f)
  then show ?case by (simp add: json_run_filter)
next
  case (3 f g gs)
  have "json_run (filters_tokens (g # gs)) (ExpValue, FArr (vs @ [filter_obj f]) # st) =
      Some (ExpCommaOrEnd, FArr ((vs @ [filter_obj f]) @ map filter_obj (g # gs)) # st)"
    by (rule "3.IH") simp_all
  then show ?case using "3.prems"(1)
    by (simp add: json_run_append json_run_filter json_step_def)
qed

lemma JSON_parse_stringify_filters:
  "JSON_parse (JSON_stringify (filter_list fs)) = Some (filter_list fs)"
proof (cases "fs = []")
  case True
  then show ?thesis by (simp add: JSON_parse_def json_lex_filter_list json_step_def) (simp add: filter_list_def)
next
  case False
  have "json_run (filters_tokens fs) (ExpValueOrEnd, [FArr []]) =
      Some (ExpCommaOrEnd, [FArr ([] @ map filter_obj fs)])"
    by (rule json_run_filters) (simp_all add: False)
  then have "json_run (TLBrack # filters_tokens fs @ [TRBrack]) (ExpValue, []) =
      Some (Finished (JArr (map filter_obj fs)), [])"
    by (simp add: json_run_append json_step_def)
  then show ?thesis by (simp add: JSON_parse_def json_lex_filter_list) (simp add: filter_list_def)
qed

lemma JSON_stringify_nonempty: "JSON_stringify (JArr vs) \<noteq> []"
  by simp

subsection \<open>Persistence\<close>

lemma loadFilters_after_save:
  assumes "\<not> storageBlocked w"
    and "storage_size (AList.update (getStorageKey w) (JSON_stringify (filters w)) (storage w)) \<le> quota w"
    and "JSON_parse (JSON_stringify (filters w)) = Some (filters w)"
    and "JSON_stringify (filters w) \<noteq> []"
  shows "loadFilters (snd (saveFilters w)) =
     (Inr (filters w),
      w\<lparr>storage := AList.update (getStorageKey w) (JSON_stringify (filters w)) (storage w)\<rparr>)"
  using assms
  by (simp add: saveFilters_def loadFilters_def loadFilters_try_def localStorage_setItem_def
      localStorage_getItem_def getStorageKey_def update_conv')

text \<open>
  C4 (as amended). Saving a filter sequence \<open>S\<close> and loading again returns \<open>S\<close> whenever
  the write succeeds, that is, when the browser grants access to \<open>localStorage\<close> and the
  store with the new content fits its quota.
\<close>

theorem save_load_roundtrip:
  assumes "\<not> storageBlocked w"
    and "storage_size (AList.update (getStorageKey w) (JSON_stringify (filter_list S)) (storage w))
           \<le> quota w"
  shows "fst (loadFilters (snd (saveFilters (w\<lparr>filters := filter_list S\<rparr>)))) = Inr (filter_list S)"
proof -
  let ?w = "w\<lparr>filters := filter_list S\<rparr>"
  have "JSON_stringify (filter_list S) \<noteq> []" by (simp add: filter_list_def)
  with assms have "loadFilters (snd (saveFilters ?w)) =
     (Inr (filters ?w),
      ?w\<lparr>storage := AList.update (getStorageKey ?w) (JSON_stringify (filters ?w)) (storage ?w)\<rparr>)"
    by (intro loadFilters_after_save) (simp_all add: JSON_parse_stringify_filters getStorageKey_def)
  then show ?thesis by simp
qed

theorem save_load_roundtrip_witness:
  "\<not> storageBlocked example_world
   \<and> storage_size (AList.update (getStorageKey example_world)
         (JSON_stringify (filter_list [Filter ''bugs'' ''is:open label:bug''])) (storage example_world))
       \<le> quota example_world
   \<and> fst (loadFilters (snd (saveFilters
         (example_world\<lparr>filters := filter_list [Filter ''bugs'' ''is:open label:bug'']\<rparr>))))
       = Inr (filter_list [Filter ''bugs'' ''is:open label:bug''])"
proof -
  have a: "\<not> storageBlocked example_world" by (simp add: example_world_def)
  have b: "storage_size (AList.update (getStorageKey example_world)
         (JSON_stringify (filter_list [Filter ''bugs'' ''is:open label:bug''])) (storage example_world))
       \<le> quota example_world"
    by (simp add: example_world_def storage_size_def filter_list_def filter_obj_def json_quote_def
        json_escape_char_def getStorageKey_def STORAGE_PREFIX_def)
  from a b save_load_roundtrip [OF a b] show ?thesis by blast
qed

text \<open>
  C4 as stated fails when the write fails, be it for lack of room or because the browser
  refuses access to \<open>localStorage\<close>: \<open>saveFilters\<close> catches the exception of
  \<open>setItem\<close>, one filter is saved and an empty sequence is loaded.
\<close>

theorem save_load_roundtrip_counterexample:
  "fst (loadFilters (snd (saveFilters
      (example_world\<lparr>quota := 0, filters := filter_list [Filter ''bugs'' ''is:open'']\<rparr>))))
     = Inr (JArr [])
   \<and> fst (loadFilters (snd (saveFilters
      (example_world\<lparr>storageBlocked := True, filters := filter_list [Filter ''bugs'' ''is:open'']\<rparr>))))
     = Inr (JArr [])
   \<and> filter_list [Filter ''bugs'' ''is:open''] \<noteq> JArr []"
  by (simp add: example_world_def saveFilters_def loadFilters_def loadFilters_try_def
      localStorage_setItem_def localStorage_getItem_def getStorageKey_def STORAGE_PREFIX_def
      storage_size_def filter_list_def filter_obj_def json_quote_def json_escape_char_def
      console_error_def)

text \<open>
  C6 (as amended). \<open>loadFilters\<close> never raises. It returns the empty sequence when the key
  is missing and when the stored string is empty, in both cases without a diagnostic; and
  it returns the empty sequence and logs a diagnostic when the stored string is not empty
  and \<open>JSON.parse\<close> rejects it.
\<close>

theorem loadFilters_fallbacks:
  "(\<exists>v. fst (loadFilters w) = Inr v)
   \<and> (\<not> storageBlocked w \<and> map_of (storage w) (getStorageKey w) = None
        \<longrightarrow> loadFilters w = (Inr (JArr []), w))
   \<and> (\<not> storageBlocked w \<and> map_of (storage w) (getStorageKey w) = Some []
        \<longrightarrow> loadFilters w = (Inr (JArr []), w))
   \<and> (\<not> storageBlocked w \<and> map_of (storage w) (getStorageKey w) = Some s \<and> s \<noteq> []
        \<and> JSON_parse s = None
        \<longrightarrow> loadFilters w =
              (Inr (JArr []),
               w\<lparr>trace := trace w @ [ConsoleError ''Error loading filters:'' SyntaxError]\<rparr>))"
  by (auto simp: loadFilters_def loadFilters_try_def localStorage_getItem_def console_error_def
      split: sum.splits option.splits)

theorem loadFilters_fallbacks_witness:
  \<open>loadFilters example_world = (Inr (JArr []), example_world)
   \<and> loadFilters (example_world\<lparr>storage := [(''GH_PR_Filters_global'', ''[{"label":"a'')]\<rparr>) =
       (Inr (JArr []),
        example_world\<lparr>storage := [(''GH_PR_Filters_global'', ''[{"label":"a'')],
                       trace := [ConsoleError ''Error loading filters:'' SyntaxError]\<rparr>)\<close>
proof -
  let ?s = \<open>''[{"label":"a''\<close>
  let ?w = "example_world\<lparr>storage := [(''GH_PR_Filters_global'', ?s)]\<rparr>"
  have p: "JSON_parse ?s = None" by (simp add: JSON_parse_def is_json_ws_def)
  have k: "\<not> storageBlocked ?w \<and> map_of (storage ?w) (getStorageKey ?w) = Some ?s \<and> ?s \<noteq> []"
    by (simp add: example_world_def getStorageKey_def STORAGE_PREFIX_def)
  have m: "\<not> storageBlocked example_world
      \<and> map_of (storage example_world) (getStorageKey example_world) = None"
    by (simp add: example_world_def)
  have t: "trace example_world = []" by (simp add: example_world_def)
  from loadFilters_fallbacks [of example_world] m
  have 1: "loadFilters example_world = (Inr (JArr []), example_world)" by blast
  from loadFilters_fallbacks [of ?w ?s] k p
  have 2: "loadFilters ?w =
      (Inr (JArr []), ?w\<lparr>trace := trace ?w @ [ConsoleError ''Error loading filters:'' SyntaxError]\<rparr>)"
    by blast
  from 1 2 t show ?thesis by simp
qed

text \<open>
  C6 as stated fails for an empty stored string: it is not JSON (\<open>JSON.parse\<close> rejects
  it), yet \<open>loadFilters\<close> does not parse it and logs nothing.
\<close>

theorem loadFilters_empty_string_counterexample:
  "JSON_parse [] = None
   \<and> map_of (storage (example_world\<lparr>storage := [(''GH_PR_Filters_global'', [])]\<rparr>))
        (getStorageKey (example_world\<lparr>storage := [(''GH_PR_Filters_global'', [])]\<rparr>)) = Some []
   \<and> trace (snd (loadFilters (example_world\<lparr>storage := [(''GH_PR_Filters_global'', [])]\<rparr>))) = []"
  by (simp add: JSON_parse_def example_world_def loadFilters_def loadFilters_try_def
      localStorage_getItem_def getStorageKey_def STORAGE_PREFIX_def)

text \<open>
  C9. The storage key is the constant \<open>GH_PR_Filters_global\<close>: it does not depend on the
  location path, and neither does what \<open>loadFilters\<close> returns or what \<open>saveFilters\<close>
  leaves in the store.
\<close>

theorem storage_key_global:
  "getStorageKey w = ''GH_PR_Filters_global''
   \<and> getStorageKey (w\<lparr>pathname := p1\<rparr>) = getStorageKey (w\<lparr>pathname := p2\<rparr>)
   \<and> fst (loadFilters (w\<lparr>pathname := p1\<rparr>)) = fst (loadFilters (w\<lparr>pathname := p2\<rparr>))
   \<and> storage (snd (saveFilters (w\<lparr>pathname := p1\<rparr>))) = storage (snd (saveFilters (w\<lparr>pathname := p2\<rparr>)))"
  by (simp add: getStorageKey_def STORAGE_PREFIX_def loadFilters_def loadFilters_try_def
      saveFilters_def localStorage_getItem_def localStorage_setItem_def console_error_def
      split: sum.splits option.splits)

subsection \<open>The parser on the templates\<close>

subsubsection \<open>The first node of a parsed fragment\<close>

lemma rooted_pending:
  assumes "rooted tg as c ((t, a, ks) # fs) r"
  shows "rooted tg as (Some (Element t a (rev (add_pending c ks)))) fs r"
  using assms by (cases "fs = []") (auto simp: rooted_def)

lemma rev_nonempty: "r \<noteq> [] \<Longrightarrow> rev r = last r # rev (butlast r)"
  by (induction r rule: rev_induct) simp_all

lemma finish_rooted:
  "rooted tg as c fs r \<Longrightarrow> \<exists>k rest. finish c fs r = Element tg as k # rest"
proof (induction fs arbitrary: c)
  case Nil
  show ?case
  proof (cases "r = []")
    case True
    with Nil show ?thesis by (auto simp: rooted_def)
  next
    case False
    with Nil obtain k where k: "last r = Element tg as k" by (auto simp: rooted_def)
    have n: "add_pending c r \<noteq> []" and l: "last (add_pending c r) = last r"
      using False by (cases c; simp)+
    have "finish c [] r = last (add_pending c r) # rev (butlast (add_pending c r))"
      using rev_nonempty [OF n] by simp
    with k l show ?thesis by metis
  qed
next
  case (Cons f fs)
  obtain t a ks where f: "f = (t, a, ks)" by (cases f)
  from Cons.prems have "rooted tg as (Some (Element t a (rev (add_pending c ks)))) fs r"
    unfolding f by (rule rooted_pending)
  from Cons.IH [OF this] show ?case by (simp add: f)
qed

lemma insert_node_rooted:
  assumes "rooted tg as None fs r" and "\<And>ks. ks \<noteq> [] \<Longrightarrow> f ks \<noteq> [] \<and> last (f ks) = last ks"
  shows "rooted tg as None (fst (insert_node f (fs, r))) (snd (insert_node f (fs, r)))"
proof (cases fs)
  case Nil
  with assms(1) have "r \<noteq> []" by (auto simp: rooted_def)
  with assms Nil show ?thesis by (auto simp: rooted_def)
next
  case (Cons g gs)
  obtain t a ks where "g = (t, a, ks)" by (cases g)
  with assms(1) Cons show ?thesis by (cases "gs = []") (auto simp: rooted_def)
qed

lemma pop_to_rooted:
  "rooted tg as c fs r \<Longrightarrow>
   rooted tg as None (fst (pop_to n c fs r)) (snd (pop_to n c fs r))"
proof (induction fs arbitrary: c)
  case Nil
  then show ?case by (cases c) (auto simp: rooted_def)
next
  case (Cons f fs)
  obtain t a ks where f: "f = (t, a, ks)" by (cases f)
  let ?e = "Element t a (rev (add_pending c ks))"
  from Cons.prems have p: "rooted tg as (Some ?e) fs r"
    unfolding f by (rule rooted_pending)
  show ?case
  proof (cases "t = n")
    case False
    with Cons.IH [OF p] show ?thesis by (simp add: f)
  next
    case True
    have "rooted tg as None (fst (insert_node (Cons ?e) (fs, r))) (snd (insert_node (Cons ?e) (fs, r)))"
    proof (cases fs)
      case Nil
      with p show ?thesis by (auto simp: rooted_def)
    next
      case (Cons g gs)
      obtain t' a' ks' where "g = (t', a', ks')" by (cases g)
      with p Cons show ?thesis by (cases "gs = []") (auto simp: rooted_def)
    qed
    with True show ?thesis by (simp add: f)
  qed
qed

lemma add_text_last: "ks \<noteq> [] \<Longrightarrow> (\<exists>k. last ks = Element tg as k) \<Longrightarrow>
  add_text s ks \<noteq> [] \<and> last (add_text s ks) = last ks"
  by (cases "(s, ks)" rule: add_text.cases) (auto split: if_splits)

lemma tree_step_rooted:
  assumes "rooted tg as None fs r"
  shows "rooted tg as None (fst (tree_step t (fs, r))) (snd (tree_step t (fs, r)))"
proof (cases t)
  case (HText s)
  show ?thesis
  proof (cases fs)
    case Nil
    with assms have "r \<noteq> []" "\<exists>k. last r = Element tg as k" by (auto simp: rooted_def)
    from add_text_last [OF this, of s] Nil HText this show ?thesis by (auto simp: rooted_def)
  next
    case (Cons g gs)
    obtain t' a' ks' where "g = (t', a', ks')" by (cases g)
    with assms Cons HText show ?thesis by (cases "gs = []") (auto simp: rooted_def)
  qed
next
  case (HComment d)
  with insert_node_rooted [OF assms, of "Cons (CommentNode d)"] show ?thesis by simp
next
  case (HStart tg' as' sc)
  have v: "rooted tg as None (fst (insert_node (Cons (Element tg' a [])) (fs, r)))
     (snd (insert_node (Cons (Element tg' a [])) (fs, r)))" for a
    by (rule insert_node_rooted [OF assms]) simp
  have p: "rooted tg as None ((tg', a, []) # fs) r" for a
    using assms by (cases "fs = []") (auto simp: rooted_def)
  from HStart v p assms show ?thesis by simp
next
  case (HEnd n)
  with pop_to_rooted [OF assms, of n] assms show ?thesis by simp
qed

lemma html_tree_rooted:
  "rooted tg as None fs r \<Longrightarrow> \<exists>k rest. html_tree ts (fs, r) = Element tg as k # rest"
proof (induction ts arbitrary: fs r)
  case Nil
  then show ?case by (simp add: finish_rooted)
next
  case (Cons t ts)
  from tree_step_rooted [OF Cons.prems, of t]
  have "rooted tg as None (fst (tree_step t (fs, r))) (snd (tree_step t (fs, r)))" .
  from Cons.IH [OF this] show ?case by simp
qed

lemma html_tree_first:
  assumes "tg \<notin> set ignored_start_tags" "tg \<notin> set void_tags" "tg \<noteq> ''svg''"
  shows "\<exists>k rest. html_tree (HStart tg as sc # ts) ([], []) = Element tg as k # rest"
proof -
  have "rooted tg as None [(tg, as, [])] []" by (simp add: rooted_def)
  from html_tree_rooted [OF this, of ts] assms show ?thesis by (simp add: in_svg_def)
qed

text \<open>The attribute names of the icon in an item, adjusted.\<close>

lemma adjust_svg_attr_icon:
  "adjust_svg_attr ''viewbox'' = ''viewBox''"
  "adjust_svg_attr ''aria-hidden'' = ''aria-hidden''"
  "adjust_svg_attr ''height'' = ''height''"
  "adjust_svg_attr ''version'' = ''version''"
  "adjust_svg_attr ''width'' = ''width''"
  "adjust_svg_attr ''data-view-component'' = ''data-view-component''"
  "adjust_svg_attr ''class'' = ''class''"
  "adjust_svg_attr ''d'' = ''d''"
  by code_simp+

subsubsection \<open>Tokenizing the templates\<close>

lemma dq_segment:
  "CHR 0x22 \<notin> set s \<Longrightarrow>
   html_tokens (AttrValueDQ t k v) (s @ r) = html_tokens (AttrValueDQ t k (v @ s)) r"
  by (induction s arbitrary: v) auto

lemma data_segment:
  "CHR ''<'' \<notin> set s \<Longrightarrow> html_tokens (Data t) (s @ r) = html_tokens (Data (t @ s)) r"
  by (induction s arbitrary: t) auto

lemma decode_refs_plain: "CHR ''&'' \<notin> set s \<Longrightarrow> decode_refs s = s"
  by (induction s) auto

lemma js_trim_core:
  assumes "\<forall>c \<in> set a. is_js_ws c" "\<forall>c \<in> set b. is_js_ws c"
    and "m \<noteq> []" "\<not> is_js_ws (hd m)" "\<not> is_js_ws (last m)"
  shows "js_trim (a @ m @ b) = m"
proof -
  have "dropWhile is_js_ws (a @ m @ b) = dropWhile is_js_ws (m @ b)"
    by (rule dropWhile_append2) (use assms(1) in simp)
  also have "\<dots> = m @ b"
    using assms(3,4) by (cases m) simp_all
  finally have 1: "dropWhile is_js_ws (a @ m @ b) = m @ b" .
  have "dropWhile is_js_ws (rev b @ rev m) = dropWhile is_js_ws (rev m)"
    by (rule dropWhile_append2) (use assms(2) in simp)
  also have "\<dots> = rev m"
    using assms(3,5) by (cases m rule: rev_cases) simp_all
  finally have "dropWhile is_js_ws (rev (m @ b)) = rev m" by simp
  with 1 show ?thesis by (simp add: js_trim_def)
qed

lemma tokens_item_open:
  assumes "CHR 0x22 \<notin> set c" "CHR 0x22 \<notin> set h"
  shows \<open>html_tokens (Data [])
     (''<a class="SelectMenu-item custom-item" role="menuitemradio" aria-checked="'' @ c @
      ''" href="/'' @ h @ ''" data-turbo-frame="repo-content-turbo-frame">'' @ r)
   = HStart ''a'' (item_attrs (decode_refs c) (decode_refs (''/'' @ h))) False
       # html_tokens (Data []) r\<close>
  using assms
  by (simp add: is_alpha_def lower_def is_html_ws_def flush_text_def before_attr_name_step_def
      after_attr_name_step_def dq_segment item_attrs_def)

lemma tokens_item_icon:
  assumes "CHR 0x22 \<notin> set d"
  shows \<open>html_tokens (Data [])
     (''\<newline>        <svg aria-hidden="true" height="16" viewBox="0 0 16 16" version="1.1" width="16" data-view-component="true" class="octicon octicon-check SelectMenu-icon SelectMenu-icon--check">\<newline>          <path d="'' @ d @ ''"></path>\<newline>        </svg>\<newline>        '' @ r)
   = [HText ''\<newline>        '',
      HStart ''svg''
        [(''aria-hidden'', ''true''), (''height'', ''16''), (''viewbox'', ''0 0 16 16''),
         (''version'', ''1.1''), (''width'', ''16''), (''data-view-component'', ''true''),
         (''class'', ''octicon octicon-check SelectMenu-icon SelectMenu-icon--check'')] False,
      HText ''\<newline>          '',
      HStart ''path'' [(''d'', decode_refs d)] False,
      HEnd ''path'',
      HText ''\<newline>        '',
      HEnd ''svg'']
     @ html_tokens (Data ''\<newline>        '') r\<close>
  using assms
  by (simp add: is_alpha_def lower_def is_html_ws_def flush_text_def before_attr_name_step_def
      after_attr_name_step_def dq_segment)

lemma itemHtml_split:
  \<open>itemHtml c p e l =
     ''\<newline>      '' @
     ((''<a class="SelectMenu-item custom-item" role="menuitemradio" aria-checked="'' @ c @
       ''" href="/'' @ (p @ ''/issues?q='' @ e) @ ''" data-turbo-frame="repo-content-turbo-frame">'' @
       (''\<newline>        <svg aria-hidden="true" height="16" viewBox="0 0 16 16" version="1.1" width="16" data-view-component="true" class="octicon octicon-check SelectMenu-icon SelectMenu-icon--check">\<newline>          <path d="'' @ check_icon_path @ ''"></path>\<newline>        </svg>\<newline>        '' @
        (l @ ''\<newline>      </'')))
      @ ''a>'')
     @ ''\<newline>    ''\<close>
  by (simp add: itemHtml_def)

lemma check_icon_path_plain: "CHR 0x22 \<notin> set check_icon_path" "CHR ''&'' \<notin> set check_icon_path"
  by (simp_all add: check_icon_path_def)

text \<open>The tokens of an item's markup: the opening tag, the icon, then whatever the label
  and the closing tag give.\<close>

lemma tokens_item:
  assumes "CHR 0x22 \<notin> set c" "CHR 0x22 \<notin> set p" "CHR 0x22 \<notin> set e"
  shows "html_tokens (Data []) (js_trim (itemHtml c p e l)) =
     HStart ''a'' (item_attrs (decode_refs c) (decode_refs (''/'' @ p @ ''/issues?q='' @ e))) False #
     [HText ''\<newline>        '',
      HStart ''svg''
        [(''aria-hidden'', ''true''), (''height'', ''16''), (''viewbox'', ''0 0 16 16''),
         (''version'', ''1.1''), (''width'', ''16''), (''data-view-component'', ''true''),
         (''class'', ''octicon octicon-check SelectMenu-icon SelectMenu-icon--check'')] False,
      HText ''\<newline>          '',
      HStart ''path'' [(''d'', check_icon_path)] False,
      HEnd ''path'',
      HText ''\<newline>        '',
      HEnd ''svg'']
     @ html_tokens (Data ''\<newline>        '') (l @ ''\<newline>      </a>'')"
proof -
  have q: "CHR 0x22 \<notin> set (p @ ''/issues?q='' @ e)" using assms by simp
  have \<open>js_trim (itemHtml c p e l) = (''<a class="SelectMenu-item custom-item" role="menuitemradio" aria-checked="'' @ c @
       ''" href="/'' @ (p @ ''/issues?q='' @ e) @ ''" data-turbo-frame="repo-content-turbo-frame">'' @
       (''\<newline>        <svg aria-hidden="true" height="16" viewBox="0 0 16 16" version="1.1" width="16" data-view-component="true" class="octicon octicon-check SelectMenu-icon SelectMenu-icon--check">\<newline>          <path d="'' @ check_icon_path @ ''"></path>\<newline>        </svg>\<newline>        '' @
        (l @ ''\<newline>      </'')))
      @ ''a>''\<close>
    unfolding itemHtml_split by (rule js_trim_core) (simp_all add: is_js_ws_def)
  then show ?thesis
    using tokens_item_open [OF assms(1) q] tokens_item_icon [OF check_icon_path_plain(1)]
    by (simp add: decode_refs_plain check_icon_path_plain)
qed

lemma HEX_digit_mem: "HEX_digit n \<in> set ''0123456789ABCDEF''"
  unfolding HEX_digit_def by (rule nth_mem) simp

lemma percent_chars: "c \<in> set (percent x) \<Longrightarrow> c \<in> set ''%0123456789ABCDEF''"
  using HEX_digit_mem [of "of_char x div 16"] HEX_digit_mem [of "of_char x"]
  by (auto simp: percent_def)

lemma uri_encode_chars:
  "c \<in> set (uri_encode s) \<Longrightarrow> uri_unreserved c \<or> c \<in> set ''%0123456789ABCDEF''"
proof (induction s rule: uri_encode.induct)
  case 1
  then show ?case by simp
next
  case (2 x xs)
  show ?case
  proof (cases "high_surrogate_at (x # xs) \<and> low_surrogate_at (drop 2 xs)")
    case True
    with "2.prems" consider y where "c \<in> set (percent y)" | "c \<in> set (uri_encode (drop 5 xs))"
      by auto
    then show ?thesis
    proof cases
      case 1
      then show ?thesis using percent_chars by blast
    next
      case 2
      with "2.IH"(1) True show ?thesis by blast
    qed
  next
    case False
    with "2.prems" consider "uri_unreserved x" "c = x" | "c \<in> set (percent x)"
      | "c \<in> set (uri_encode xs)"
      by (auto split: if_splits)
    then show ?thesis
    proof cases
      case 1
      then show ?thesis by simp
    next
      case 2
      then show ?thesis using percent_chars by blast
    next
      case 3
      with "2.IH"(2) False show ?thesis by blast
    qed
  qed
qed

lemma encodeURIComponent_plain:
  assumes "encodeURIComponent s = Inr e"
  shows "CHR 0x22 \<notin> set e" and "CHR ''&'' \<notin> set e"
proof -
  from assms have e: "e = uri_encode s" by (auto simp: encodeURIComponent_def split: if_splits)
  show "CHR 0x22 \<notin> set e" "CHR ''&'' \<notin> set e"
    using uri_encode_chars [of "CHR 0x22" s] uri_encode_chars [of "CHR ''&''" s]
    unfolding e by (auto simp: uri_unreserved_def)
qed

lemma enc_example: "encodeURIComponent ''is:open'' = Inr ''is%3Aopen''"
  by (simp add: encodeURIComponent_def uri_unreserved_def HEX_digit_def percent_def)

lemma createFilterItem_shape:
  assumes "CHR 0x22 \<notin> set (getRepoPath w)" and "encodeURIComponent q = Inr e"
  shows "\<exists>ks. createFilterItem w l q c =
     Inr (Some (Element ''a''
       (item_attrs (if c then ''true'' else ''false'')
          (decode_refs (''/'' @ getRepoPath w @ ''/issues?q='' @ e))) ks))"
proof -
  let ?c = "if c then ''true'' else ''false''"
  have c: "CHR 0x22 \<notin> set ?c" by simp
  have d: "decode_refs ?c = ?c" by simp
  note t = tokens_item [OF c assms(1) encodeURIComponent_plain(1) [OF assms(2)], of l]
  have "\<exists>k rest. parse_fragment (js_trim (itemHtml ?c (getRepoPath w) e l)) =
      Element ''a'' (item_attrs ?c (decode_refs (''/'' @ getRepoPath w @ ''/issues?q='' @ e))) k # rest"
    unfolding parse_fragment_def t d
    by (rule html_tree_first) (simp_all add: ignored_start_tags_def void_tags_def)
  then show ?thesis
    by (auto simp: createFilterItem_def createElementFromHtml_def assms(2))
qed

lemma createFilterItem_tree:
  assumes "CHR 0x22 \<notin> set (getRepoPath w)" and "encodeURIComponent q = Inr e"
  shows "createFilterItem w l q c =
     Inr (case html_tree
        (HStart ''a'' (item_attrs (if c then ''true'' else ''false'')
            (decode_refs (''/'' @ getRepoPath w @ ''/issues?q='' @ e))) False #
         [HText ''\<newline>        '',
          HStart ''svg''
            [(''aria-hidden'', ''true''), (''height'', ''16''), (''viewbox'', ''0 0 16 16''),
             (''version'', ''1.1''), (''width'', ''16''), (''data-view-component'', ''true''),
             (''class'', ''octicon octicon-check SelectMenu-icon SelectMenu-icon--check'')] False,
          HText ''\<newline>          '',
          HStart ''path'' [(''d'', check_icon_path)] False,
          HEnd ''path'',
          HText ''\<newline>        '',
          HEnd ''svg'']
         @ html_tokens (Data ''\<newline>        '') (l @ ''\<newline>      </a>'')) ([], [])
      of [] \<Rightarrow> None | n # ns \<Rightarrow> Some n)"
proof -
  let ?c = "if c then ''true'' else ''false''"
  have c: "CHR 0x22 \<notin> set ?c" by simp
  have d: "decode_refs ?c = ?c" by simp
  note t = tokens_item [OF c assms(1) encodeURIComponent_plain(1) [OF assms(2)], of l]
  show ?thesis
    unfolding createFilterItem_def createElementFromHtml_def parse_fragment_def assms(2) sum.case t d ..
qed

text \<open>A label without \<open><\<close> becomes the text of the item, after the icon.\<close>

lemma createFilterItem_plain:
  assumes "CHR 0x22 \<notin> set (getRepoPath w)" and "encodeURIComponent q = Inr e"
    and "CHR ''<'' \<notin> set l"
  shows "createFilterItem w l q c =
     Inr (Some (Element ''a''
       (item_attrs (if c then ''true'' else ''false'')
          (decode_refs (''/'' @ getRepoPath w @ ''/issues?q='' @ e)))
       [TextNode ''\<newline>        '', item_icon,
        TextNode (decode_refs (''\<newline>        '' @ l @ ''\<newline>      ''))]))"
proof -
  have "html_tokens (Data ''\<newline>        '') (l @ ''\<newline>      </a>'') =
      html_tokens (Data (''\<newline>        '' @ l)) ''\<newline>      </a>''"
    by (rule data_segment [OF assms(3)])
  also have "\<dots> = [HText (decode_refs (''\<newline>        '' @ l @ ''\<newline>      '')), HEnd ''a'']"
    by (simp add: is_alpha_def lower_def flush_text_def is_html_ws_def)
  finally show ?thesis
    unfolding createFilterItem_tree [OF assms(1,2)]
    by (simp add: ignored_start_tags_def void_tags_def item_icon_def in_svg_def
        adjust_svg_attrs_def adjust_svg_attr_icon)
qed

subsubsection \<open>The button\<close>

lemma tokens_button_open:
  \<open>html_tokens (Data [])
     (''<button id="fav-button" class="Button Button--iconOnly Button--invisible Button--medium" data-view-component="true" type="button" variant="small" id="favorite-query-button" role="button">'' @ r)
   = HStart ''button''
       [(''id'', ''fav-button''),
        (''class'', ''Button Button--iconOnly Button--invisible Button--medium''),
        (''data-view-component'', ''true''), (''type'', ''button''), (''variant'', ''small''),
        (''role'', ''button'')] False
       # html_tokens (Data []) r\<close>
  by (simp add: is_alpha_def lower_def is_html_ws_def flush_text_def before_attr_name_step_def
      after_attr_name_step_def)

lemma favButtonHtml_split:
  \<open>favButtonHtml =
     ''\<newline>      '' @
     ((''<button id="fav-button" class="Button Button--iconOnly Button--invisible Button--medium" data-view-component="true" type="button" variant="small" id="favorite-query-button" role="button">'' @
       (''\<newline>        <svg class="octicon octicon-search subnav-search-icon" data-view-component="true" width="16" version="1.1" viewBox="0 0 471.701 471.701" height="16" aria-hidden="true">\<newline>            <path d="'' @ heart_icon_path @ ''"></path>\<newline>        </svg>\<newline>      </butto''))
      @ ''n>'')
     @ ''\<newline>    ''\<close>
  by (simp add: favButtonHtml_def)

text \<open>The button is always built: an element \<open>button\<close> with the first \<open>id\<close> of the two.\<close>

lemma createAddToFavButton_button:
  "\<exists>ks. createAddToFavButton =
     Inr (Element ''button''
       [(''id'', ''fav-button''),
        (''class'', ''Button Button--iconOnly Button--invisible Button--medium''),
        (''data-view-component'', ''true''), (''type'', ''button''), (''variant'', ''small''),
        (''role'', ''button'')] ks)"
proof -
  let ?as = "[(''id'', ''fav-button''),
        (''class'', ''Button Button--iconOnly Button--invisible Button--medium''),
        (''data-view-component'', ''true''), (''type'', ''button''), (''variant'', ''small''),
        (''role'', ''button'')]"
  have m: \<open>js_trim favButtonHtml =
     (''<button id="fav-button" class="Button Button--iconOnly Button--invisible Button--medium" data-view-component="true" type="button" variant="small" id="favorite-query-button" role="button">'' @
       (''\<newline>        <svg class="octicon octicon-search subnav-search-icon" data-view-component="true" width="16" version="1.1" viewBox="0 0 471.701 471.701" height="16" aria-hidden="true">\<newline>            <path d="'' @ heart_icon_path @ ''"></path>\<newline>        </svg>\<newline>      </butto''))
      @ ''n>''\<close>
    unfolding favButtonHtml_split by (rule js_trim_core) (simp_all add: is_js_ws_def)
  have "\<exists>r. html_tokens (Data []) (js_trim favButtonHtml) = HStart ''button'' ?as False # r"
    unfolding m append_assoc by (rule exI, rule tokens_button_open)
  then obtain r where "html_tokens (Data []) (js_trim favButtonHtml) = HStart ''button'' ?as False # r"
    by blast
  moreover have "\<exists>k rest. html_tree (HStart ''button'' ?as False # r) ([], []) =
      Element ''button'' ?as k # rest"
    by (rule html_tree_first) (simp_all add: ignored_start_tags_def void_tags_def)
  ultimately show ?thesis
    by (auto simp: createAddToFavButton_def createElementFromHtml_def parse_fragment_def)
qed

subsubsection \<open>One render\<close>

lemma remove_custom_items_flat:
  "\<not> list_ex (has_class_below ''custom-item'') ks \<Longrightarrow>
   remove_custom_items ks = (None, filter (\<lambda>k. \<not> has_class ''custom-item'' k) ks)"
  by (induction ks) simp_all

lemma filters_to_render_list: "filters_to_render (filter_list fs) = Inr fs"
proof -
  have "those (map filter_of (map filter_obj fs)) = Some fs"
    by (induction fs) (simp_all add: filter_obj_def)
  then show ?thesis by (simp add: filter_list_def)
qed

lemma item_node_pathname: "pathname w' = pathname w \<Longrightarrow> item_node w' = item_node w"
  by (rule ext) (simp add: item_node_def createFilterItem_def getRepoPath_def cong: sum.case_cong)

lemma render_items_step:
  assumes "\<not> lone_surrogate (query f)" and "dropdown w = Some ks"
  shows "render_items (f # fs) w = render_items fs (w\<lparr>dropdown := Some (item_node w f # ks)\<rparr>)"
  using assms
  by (simp add: item_node_def createFilterItem_def encodeURIComponent_def dropdown_prepend_def
      split: option.splits)

text \<open>The loop puts the items in front, the last of the list first.\<close>

lemma render_items_all:
  assumes "\<forall>f \<in> set fs. \<not> lone_surrogate (query f)" and "dropdown w = Some ks"
  shows "render_items fs w = (Inr (), w\<lparr>dropdown := Some (map (item_node w) (rev fs) @ ks)\<rparr>)"
  using assms
proof (induction fs arbitrary: w ks)
  case Nil
  then show ?case by simp
next
  case (Cons f fs)
  let ?w = "w\<lparr>dropdown := Some (item_node w f # ks)\<rparr>"
  have s: "item_node ?w = item_node w" by (rule item_node_pathname) simp
  have "render_items (f # fs) w = render_items fs ?w"
    using Cons.prems by (intro render_items_step) simp_all
  also have "\<dots> = (Inr (), ?w\<lparr>dropdown := Some (map (item_node ?w) (rev fs) @ item_node w f # ks)\<rparr>)"
    using Cons.prems by (intro Cons.IH) simp_all
  finally show ?case by (simp add: s)
qed

lemma initializeDropdown_renders:
  assumes "dropdown w = Some ks" and "subnav w = Some sk" and "filters w = filter_list fs"
    and "\<not> list_ex (has_class_below ''custom-item'') ks"
    and "\<forall>f \<in> set fs. \<not> lone_surrogate (query f)"
    and "createAddToFavButton = Inr b"
  shows "initializeDropdown w =
     (Inr (), w\<lparr>dropdown := Some (map (item_node w) fs @ filter (\<lambda>k. \<not> has_class ''custom-item'' k) ks),
                subnav := Some (sk @ [b])\<rparr>)"
proof -
  let ?ks = "filter (\<lambda>k. \<not> has_class ''custom-item'' k) ks"
  let ?w1 = "w\<lparr>dropdown := Some ?ks\<rparr>"
  have c: "clearOldItems w = (Inr (), ?w1)"
    using assms(1,4) by (simp add: clearOldItems_def remove_custom_items_flat)
  have s: "item_node ?w1 = item_node w" by (rule item_node_pathname) simp
  have "render_items (rev fs) ?w1 = (Inr (), ?w1\<lparr>dropdown := Some (map (item_node ?w1) (rev (rev fs)) @ ?ks)\<rparr>)"
    using assms(5) by (intro render_items_all) simp_all
  then have p: "render_items (rev fs) ?w1 = (Inr (), w\<lparr>dropdown := Some (map (item_node w) fs @ ?ks)\<rparr>)"
    by (simp add: s)
  show ?thesis
    using assms(1,2,3)
    by (simp add: initializeDropdown_def c filters_to_render_list p subnav_appendChild_def assms(6))
qed


subsubsection \<open>Items in the dropdown\<close>


lemma encodeURIComponent_Inr: "\<not> lone_surrogate q \<Longrightarrow> encodeURIComponent q = Inr (uri_encode q)"
  by (simp add: encodeURIComponent_def)

lemma item_node_custom:
  assumes "CHR 0x22 \<notin> set (getRepoPath w)" and "\<not> lone_surrogate (query f)"
  shows "has_class ''custom-item'' (item_node w f)"
  using createFilterItem_shape [OF assms(1) encodeURIComponent_Inr [OF assms(2)], of "label f" False]
  by (auto simp: item_node_def item_attrs_def is_html_ws_def)

lemma item_node_flat:
  assumes "CHR 0x22 \<notin> set (getRepoPath w)" and "\<not> lone_surrogate (query f)"
    and "CHR ''<'' \<notin> set (label f)"
  shows "\<not> has_class_below ''custom-item'' (item_node w f)"
  unfolding item_node_def createFilterItem_plain [OF assms(1) encodeURIComponent_Inr [OF assms(2)] assms(3)]
  by (simp add: item_icon_def is_html_ws_def)

text \<open>
  Two renders in a row, for labels without \<open><\<close>: the second removes the items of the
  first and inserts them again, so the dropdown is as after one render; the search bar
  has the button twice.
\<close>

lemma initializeDropdown_twice:
  assumes "dropdown w = Some ks" and "subnav w = Some sk" and "filters w = filter_list fs"
    and "\<not> list_ex (has_class_below ''custom-item'') ks"
    and "\<forall>f \<in> set fs. \<not> lone_surrogate (query f)"
    and "createAddToFavButton = Inr b"
    and "CHR 0x22 \<notin> set (getRepoPath w)"
    and "\<forall>f \<in> set fs. CHR ''<'' \<notin> set (label f)"
  shows "initializeDropdown (snd (initializeDropdown w)) =
     (Inr (), w\<lparr>dropdown := Some (map (item_node w) fs @ filter (\<lambda>k. \<not> has_class ''custom-item'' k) ks),
                subnav := Some (sk @ [b, b])\<rparr>)"
proof -
  let ?rest = "filter (\<lambda>k. \<not> has_class ''custom-item'' k) ks"
  let ?items = "map (item_node w) fs"
  let ?w1 = "w\<lparr>dropdown := Some (?items @ ?rest), subnav := Some (sk @ [b])\<rparr>"
  have 1: "initializeDropdown w = (Inr (), ?w1)"
    by (rule initializeDropdown_renders [OF assms(1-6)])
  have flat: "\<not> list_ex (has_class_below ''custom-item'') (?items @ ?rest)"
    using assms(4,5,8) item_node_flat [OF assms(7)] by (auto simp: list_ex_iff)
  have keep: "filter (\<lambda>k. \<not> has_class ''custom-item'' k) ?items = []"
    using assms(5) item_node_custom [OF assms(7)] by (simp add: filter_empty_conv)
  have same: "item_node ?w1 = item_node w" by (rule item_node_pathname) simp
  have "initializeDropdown ?w1 =
     (Inr (), ?w1\<lparr>dropdown := Some (map (item_node ?w1) fs @
                  filter (\<lambda>k. \<not> has_class ''custom-item'' k) (?items @ ?rest)),
                subnav := Some ((sk @ [b]) @ [b])\<rparr>)"
    by (rule initializeDropdown_renders [OF _ _ _ flat assms(5,6)]) (simp_all add: assms(3))
  then show ?thesis by (simp add: 1 keep same)
qed

subsection \<open>The link of an item\<close>

lemma getRepoPath_example: "getRepoPath example_world = ''org/repo''"
  by (simp add: getRepoPath_def example_world_def js_slice_def)

lemma lone_surrogate_example: "lone_surrogate [CHR 0xED, CHR 0xA0, CHR 0x80]"
  by (simp add: is_cont_def)

text \<open>
  C10 (as amended). For a query that \<open>encodeURIComponent\<close> accepts, that is, a query
  without a lone surrogate, and a location path whose first two segments have neither a
  double quote nor an ampersand, the item is an element whose \<open>href\<close> is \<open>/\<close>, the
  repository path, \<open>/issues?q=\<close> and the URI-encoded query: the issues search of the
  repository, not its pulls page. The repository path (\<open>getRepoPath\<close>) is the first
  two segments of the location path, joined by \<open>/\<close>.
\<close>

theorem item_link_target:
  assumes "CHR 0x22 \<notin> set (getRepoPath w)" and "CHR ''&'' \<notin> set (getRepoPath w)"
    and "\<not> lone_surrogate qry"
  shows "\<exists>n e. encodeURIComponent qry = Inr e
           \<and> createFilterItem w lbl qry checked = Inr (Some n)
           \<and> getAttribute ''href'' n = Some (''/'' @ getRepoPath w @ ''/issues?q='' @ e)"
proof -
  have e: "encodeURIComponent qry = Inr (uri_encode qry)"
    using assms(3) by (rule encodeURIComponent_Inr)
  have "CHR ''&'' \<notin> set (''/'' @ getRepoPath w @ ''/issues?q='' @ uri_encode qry)"
    using assms(2) encodeURIComponent_plain(2) [OF e] by simp
  then have "decode_refs (''/'' @ getRepoPath w @ ''/issues?q='' @ uri_encode qry)
      = ''/'' @ getRepoPath w @ ''/issues?q='' @ uri_encode qry"
    by (rule decode_refs_plain)
  with createFilterItem_shape [OF assms(1) e, of lbl checked] e show ?thesis
    by (auto simp: item_attrs_def)
qed

theorem item_link_target_witness:
  "CHR 0x22 \<notin> set (getRepoPath example_world) \<and> CHR ''&'' \<notin> set (getRepoPath example_world)
   \<and> \<not> lone_surrogate ''is:open''
   \<and> encodeURIComponent ''is:open'' = Inr ''is%3Aopen''
   \<and> (\<exists>n. createFilterItem example_world ''open bugs'' ''is:open'' False = Inr (Some n)
          \<and> getAttribute ''href'' n = Some ''/org/repo/issues?q=is%3Aopen'')"
proof -
  have a: "CHR 0x22 \<notin> set (getRepoPath example_world)"
    and b: "CHR ''&'' \<notin> set (getRepoPath example_world)"
    by (simp_all add: getRepoPath_example)
  have c: "\<not> lone_surrogate ''is:open''" by simp
  from item_link_target [OF a b c, of "''open bugs''" False] a b c show ?thesis
    by (auto simp: getRepoPath_example enc_example)
qed

text \<open>
  C10 as stated fails for a location path with an ampersand: the markup then has
  \<open>&amp;\<close> inside the quoted \<open>href\<close>, which the parser reads as the character
  reference for \<open>&\<close>, and the link leads to another path. It also fails for a query
  with a lone surrogate: \<open>encodeURIComponent\<close> throws \<open>URIError\<close>, so does
  \<open>createFilterItem\<close>, and there is no item.
\<close>

theorem item_link_target_counterexample:
  "(\<exists>n. createFilterItem (example_world\<lparr>pathname := ''/a&amp;b/repo/pulls''\<rparr>)
          ''open bugs'' ''is:open'' False = Inr (Some n)
        \<and> getAttribute ''href'' n = Some ''/a&b/repo/issues?q=is%3Aopen'')
   \<and> encodeURIComponent ''is:open'' = Inr ''is%3Aopen''
   \<and> ''/'' @ getRepoPath (example_world\<lparr>pathname := ''/a&amp;b/repo/pulls''\<rparr>)
         @ ''/issues?q='' @ ''is%3Aopen''
       = ''/a&amp;b/repo/issues?q=is%3Aopen''
   \<and> createFilterItem example_world ''open bugs'' [CHR 0xED, CHR 0xA0, CHR 0x80] False
       = Inl URIError"
proof -
  let ?w = "example_world\<lparr>pathname := ''/a&amp;b/repo/pulls''\<rparr>"
  have g: "getRepoPath ?w = ''a&amp;b/repo''" by (simp add: getRepoPath_def js_slice_def)
  have p: "CHR 0x22 \<notin> set (getRepoPath ?w)" by (simp add: g)
  have u: "createFilterItem example_world ''open bugs'' [CHR 0xED, CHR 0xA0, CHR 0x80] False
       = Inl URIError"
    using lone_surrogate_example by (simp add: createFilterItem_def encodeURIComponent_def)
  from createFilterItem_shape [OF p enc_example, of "''open bugs''" False] u
  show ?thesis by (auto simp: g enc_example item_attrs_def)
qed

subsection \<open>The label of an item\<close>

text \<open>\<open>createOption\<close> does show its label as text, whatever the label.\<close>

lemma createOption_textContent: "textContent (createOption lbl v disabled) = lbl"
  by (simp add: createOption_def)

text \<open>
  C2. \<open>createFilterItem\<close> writes the label into the markup as it is, and the label is
  parsed with the markup. The label \<open><b>x</b>\<close> is not shown as those eight
  characters: the item gets a \<open>b\<close> element with the text \<open>x\<close>, and the item's text
  content does not contain the label.
\<close>

theorem label_parsed_as_markup:
  "createFilterItem example_world ''<b>x</b>'' ''is:open'' False =
     Inr (Some (Element ''a'' (item_attrs ''false'' ''/org/repo/issues?q=is%3Aopen'')
       [TextNode ''\<newline>        '', item_icon, TextNode ''\<newline>        '',
        Element ''b'' [] [TextNode ''x''], TextNode ''\<newline>      '']))
   \<and> \<not> js_includes
         (case createFilterItem example_world ''<b>x</b>'' ''is:open'' False of
            Inr (Some n) \<Rightarrow> textContent n | _ \<Rightarrow> [])
         ''<b>x</b>''"
proof -
  have p: "CHR 0x22 \<notin> set (getRepoPath example_world)" by (simp add: getRepoPath_example)
  have t: "html_tokens (Data ''\<newline>        '') (''<b>x</b>'' @ ''\<newline>      </a>'') =
      [HText ''\<newline>        '', HStart ''b'' [] False, HText ''x'', HEnd ''b'',
       HText ''\<newline>      '', HEnd ''a'']"
    by (simp add: is_alpha_def lower_def flush_text_def is_html_ws_def)
  have 1: "createFilterItem example_world ''<b>x</b>'' ''is:open'' False =
     Inr (Some (Element ''a'' (item_attrs ''false'' ''/org/repo/issues?q=is%3Aopen'')
       [TextNode ''\<newline>        '', item_icon, TextNode ''\<newline>        '',
        Element ''b'' [] [TextNode ''x''], TextNode ''\<newline>      '']))"
    unfolding createFilterItem_tree [OF p enc_example] t
    by (simp add: ignored_start_tags_def void_tags_def item_icon_def getRepoPath_example
        in_svg_def adjust_svg_attrs_def adjust_svg_attr_icon)
  have 2: "\<not> js_includes (textContent (Element ''a'' (item_attrs ''false'' ''/org/repo/issues?q=is%3Aopen'')
       [TextNode ''\<newline>        '', item_icon, TextNode ''\<newline>        '',
        Element ''b'' [] [TextNode ''x''], TextNode ''\<newline>      ''])) ''<b>x</b>''"
    by (simp add: item_icon_def)
  from 1 2 show ?thesis by simp
qed

subsection \<open>The order of the rendered items\<close>






subsection \<open>Rendering twice\<close>

text \<open>
  C3. Rendering twice is not the same as rendering once: on the example page with one
  stored filter, the first render leaves one item and one button, the second leaves the
  same item and two buttons. \<open>clearOldItems\<close> removes the items only.
\<close>

theorem second_render_adds_button:
  "\<exists>b. createAddToFavButton = Inr b
       \<and> initializeDropdown one_filter =
           (Inr (), one_filter\<lparr>dropdown := Some [item_node one_filter (Filter ''bugs'' ''is:open'')],
                               subnav := Some [b]\<rparr>)
       \<and> initializeDropdown (snd (initializeDropdown one_filter)) =
           (Inr (), one_filter\<lparr>dropdown := Some [item_node one_filter (Filter ''bugs'' ''is:open'')],
                               subnav := Some [b, b]\<rparr>)"
proof -
  from createAddToFavButton_button obtain b where b: "createAddToFavButton = Inr b" by blast
  have f: "dropdown one_filter = Some []" "subnav one_filter = Some []"
    "filters one_filter = filter_list [Filter ''bugs'' ''is:open'']"
    "getRepoPath one_filter = ''org/repo''"
    by (simp_all add: one_filter_def example_world_def getRepoPath_def js_slice_def)
  have n: "\<not> list_ex (has_class_below ''custom-item'') []" by simp
  have p: "CHR 0x22 \<notin> set (getRepoPath one_filter)" by (simp add: f)
  have l: "\<forall>f \<in> set [Filter ''bugs'' ''is:open'']. CHR ''<'' \<notin> set (label f)" by simp
  have q: "\<forall>f \<in> set [Filter ''bugs'' ''is:open'']. \<not> lone_surrogate (query f)" by simp
  from initializeDropdown_renders [OF f(1,2,3) n q b]
    initializeDropdown_twice [OF f(1,2,3) n q b p l] b
  show ?thesis by auto
qed

subsection \<open>The retry window\<close>

lemma loadFilters_try_retryAttempts [simp]:
  "loadFilters_try (w\<lparr>retryAttempts := k\<rparr>) = loadFilters_try w"
  by (simp add: loadFilters_try_def localStorage_getItem_def getStorageKey_def)

lemma run_timers_idle: "timers w = [] \<Longrightarrow> run_timers n w = (Inr (), w)"
  by (cases n) (simp_all add: fire_timer_def)

lemma retry_chain:
  assumes "subnav w = None" "timers w = [(clock w + 500, RetryCheck)]" "retryAttempts w = 1"
  shows "run_timers (3 + n) w =
     (Inr (), w\<lparr>timers := [], clock := clock w + 1500, retryAttempts := 3,
                trace := trace w @ [TimerFired (clock w + 500), TimerFired (clock w + 1000),
                  TimerFired (clock w + 1500), ConsoleWarn ''Failed to initialize GitHub PR Filter after maximum retry attempts'']\<rparr>)"
proof -
  have "run_timers (Suc (Suc (Suc n))) w =
     (Inr (), w\<lparr>timers := [], clock := clock w + 1500, retryAttempts := 3,
                trace := trace w @ [TimerFired (clock w + 500), TimerFired (clock w + 1000),
                  TimerFired (clock w + 1500), ConsoleWarn ''Failed to initialize GitHub PR Filter after maximum retry attempts'']\<rparr>)"
    using assms
    by (simp add: fire_timer_def retryInitialization_def setTimeout_def js_warn_def
        MAX_RETRY_ATTEMPTS_def RETRY_DELAY_def run_timers_idle max_def)
  moreover have "3 + n = Suc (Suc (Suc n))" by simp
  ultimately show ?thesis by (simp only:)
qed

lemma handleLocationChange_absent:
  assumes "isPullRequestPage w" "subnav w = None"
  shows "handleLocationChange w =
     (Inr (), (snd (loadFilters w))\<lparr>filters := projr (fst (loadFilters w)), retryAttempts := 1,
                timers := timers w @ [(clock w + 500, RetryCheck)]\<rparr>)"
proof (cases "loadFilters_try w")
  case (Inr v)
  with assms show ?thesis
    by (simp add: handleLocationChange_def isPullRequestPage_def retryInitialization_def
        setTimeout_def MAX_RETRY_ATTEMPTS_def RETRY_DELAY_def loadFilters_def)
next
  case (Inl e)
  with assms show ?thesis
    by (simp add: handleLocationChange_def isPullRequestPage_def retryInitialization_def
        setTimeout_def MAX_RETRY_ATTEMPTS_def RETRY_DELAY_def loadFilters_def console_error_def)
qed

lemma loadFilters_keeps:
  "dropdown (snd (loadFilters w)) = dropdown w \<and> subnav (snd (loadFilters w)) = subnav w
   \<and> clock (snd (loadFilters w)) = clock w \<and> timers (snd (loadFilters w)) = timers w
   \<and> pathname (snd (loadFilters w)) = pathname w \<and> storage (snd (loadFilters w)) = storage w"
  by (cases "loadFilters_try w") (simp_all add: loadFilters_def console_error_def)

lemma handleLocationChange_elsewhere:
  "\<not> isPullRequestPage w \<Longrightarrow> handleLocationChange w = (Inr (), w\<lparr>retryAttempts := 0\<rparr>)"
  by (simp add: handleLocationChange_def isPullRequestPage_def)

lemma handleLocationChange_resets:
  "handleLocationChange (w\<lparr>retryAttempts := k\<rparr>) = handleLocationChange w"
  by (simp add: handleLocationChange_def)

text \<open>
  C7 (as amended). Take a navigation trigger that arrives while no retry timer is pending
  and whose mount point is absent and stays absent, and let its timers run with no other
  trigger in between. On a pull-request page three re-checks are performed, 500, 1000
  and 1500 ms after the trigger, and the third logs the warning; on any other page the
  trigger returns at once and there is no re-check. In both cases nothing throws, nothing
  is injected, and no timer is pending afterwards, whatever more time passes. The next
  trigger starts from a counter of 0: it does what it would do with the counter reset,
  and on a pull-request page it leaves the counter at 1 with a new first re-check pending.
\<close>

theorem retry_window:
  assumes "subnav w = None" and "timers w = []"
  shows "let w0 = snd (handleLocationChange w);
             wf = snd (run_timers (3 + n) w0);
             wn = snd (handleLocationChange wf)
         in fst (handleLocationChange w) = Inr ()
            \<and> fst (run_timers (3 + n) w0) = Inr ()
            \<and> (if isPullRequestPage w
                then timers w0 = [(clock w + 500, RetryCheck)]
                     \<and> trace wf = trace (snd (loadFilters w)) @
                          [TimerFired (clock w + 500), TimerFired (clock w + 1000),
                           TimerFired (clock w + 1500), ConsoleWarn ''Failed to initialize GitHub PR Filter after maximum retry attempts'']
                     \<and> retryAttempts wf = 3
                     \<and> retryAttempts wn = 1
                     \<and> timers wn = [(clock wf + 500, RetryCheck)]
                else timers w0 = []
                     \<and> trace wf = trace w
                     \<and> retryAttempts wf = 0
                     \<and> retryAttempts wn = 0
                     \<and> timers wn = [])
            \<and> timers wf = []
            \<and> dropdown wf = dropdown w \<and> subnav wf = None
            \<and> handleLocationChange wf = handleLocationChange (wf\<lparr>retryAttempts := 0\<rparr>)"
proof (cases "isPullRequestPage w")
  case True
  define w0 where "w0 = snd (handleLocationChange w)"
  define wf where "wf = snd (run_timers (3 + n) w0)"
  define wn where "wn = snd (handleLocationChange wf)"
  note k = loadFilters_keeps [of w]
  have h: "handleLocationChange w = (Inr (), w0)"
    and w0: "w0 = (snd (loadFilters w))\<lparr>filters := projr (fst (loadFilters w)), retryAttempts := 1,
                timers := [(clock w + 500, RetryCheck)]\<rparr>"
    using handleLocationChange_absent [OF True assms(1)] assms(2) by (simp_all add: w0_def)
  have c: "subnav w0 = None" "timers w0 = [(clock w0 + 500, RetryCheck)]" "retryAttempts w0 = 1"
    "clock w0 = clock w"
    using k assms by (simp_all add: w0)
  have r: "run_timers (3 + n) w0 =
     (Inr (), w0\<lparr>timers := [], clock := clock w0 + 1500, retryAttempts := 3,
                trace := trace w0 @ [TimerFired (clock w0 + 500), TimerFired (clock w0 + 1000),
                  TimerFired (clock w0 + 1500), ConsoleWarn ''Failed to initialize GitHub PR Filter after maximum retry attempts'']\<rparr>)"
    by (rule retry_chain [OF c(1,2,3)])
  then have wf: "wf = w0\<lparr>timers := [], clock := clock w0 + 1500, retryAttempts := 3,
                trace := trace w0 @ [TimerFired (clock w0 + 500), TimerFired (clock w0 + 1000),
                  TimerFired (clock w0 + 1500), ConsoleWarn ''Failed to initialize GitHub PR Filter after maximum retry attempts'']\<rparr>"
    by (simp add: wf_def)
  have p: "isPullRequestPage wf" "subnav wf = None" "timers wf = []"
    using True c k by (simp_all add: wf w0 isPullRequestPage_def)
  have n: "wn = (snd (loadFilters wf))\<lparr>filters := projr (fst (loadFilters wf)), retryAttempts := 1,
                timers := timers wf @ [(clock wf + 500, RetryCheck)]\<rparr>"
    using handleLocationChange_absent [OF p(1,2)] by (simp add: wn_def)
  have "fst (handleLocationChange w) = Inr ()" using h by simp
  moreover have "timers w0 = [(clock w + 500, RetryCheck)]" using c by simp
  moreover have "fst (run_timers (3 + n) w0) = Inr ()" using r by simp
  moreover have "trace wf = trace (snd (loadFilters w)) @
                 [TimerFired (clock w + 500), TimerFired (clock w + 1000),
                  TimerFired (clock w + 1500), ConsoleWarn ''Failed to initialize GitHub PR Filter after maximum retry attempts'']"
    using c by (simp add: wf) (simp add: w0)
  moreover have "timers wf = []" "retryAttempts wf = 3" by (simp_all add: wf)
  moreover have "dropdown wf = dropdown w" "subnav wf = None" using k assms by (simp_all add: wf w0)
  moreover have "retryAttempts wn = 1" "timers wn = [(clock wf + 500, RetryCheck)]"
    using p by (simp_all add: n)
  moreover have "handleLocationChange wf = handleLocationChange (wf\<lparr>retryAttempts := 0\<rparr>)"
    by (simp add: handleLocationChange_resets)
  ultimately show ?thesis
    unfolding Let_def w0_def [symmetric] wf_def [symmetric] wn_def [symmetric]
    using True by simp
next
  case False
  let ?w0 = "w\<lparr>retryAttempts := 0\<rparr>"
  have h: "handleLocationChange w = (Inr (), ?w0)"
    using False by (rule handleLocationChange_elsewhere)
  have r: "run_timers (3 + n) ?w0 = (Inr (), ?w0)"
    by (rule run_timers_idle) (simp add: assms(2))
  have f: "\<not> isPullRequestPage ?w0" using False by (simp add: isPullRequestPage_def)
  have n: "handleLocationChange ?w0 = (Inr (), ?w0)"
    using handleLocationChange_elsewhere [OF f] by simp
  show ?thesis
    using False assms by (simp add: Let_def h r n handleLocationChange_resets)
qed

theorem retry_window_witness:
  "subnav (example_world\<lparr>subnav := None\<rparr>) = None
   \<and> timers (example_world\<lparr>subnav := None\<rparr>) = []
   \<and> isPullRequestPage (example_world\<lparr>subnav := None\<rparr>)
   \<and> fst (handleLocationChange (example_world\<lparr>subnav := None\<rparr>)) = Inr ()
   \<and> fst (run_timers 3 (snd (handleLocationChange (example_world\<lparr>subnav := None\<rparr>)))) = Inr ()
   \<and> trace (snd (run_timers 3 (snd (handleLocationChange (example_world\<lparr>subnav := None\<rparr>)))))
       = [TimerFired 500, TimerFired 1000, TimerFired 1500, ConsoleWarn ''Failed to initialize GitHub PR Filter after maximum retry attempts'']
   \<and> timers (snd (run_timers 3 (snd (handleLocationChange (example_world\<lparr>subnav := None\<rparr>))))) = []
   \<and> dropdown (snd (run_timers 3 (snd (handleLocationChange (example_world\<lparr>subnav := None\<rparr>)))))
       = Some []
   \<and> subnav (snd (run_timers 3 (snd (handleLocationChange (example_world\<lparr>subnav := None\<rparr>)))))
       = None"
proof -
  let ?w = "example_world\<lparr>subnav := None\<rparr>"
  have a: "isPullRequestPage ?w" by (simp add: isPullRequestPage_def example_world_def)
  have b: "subnav ?w = None" by simp
  have c: "timers ?w = []" by (simp add: example_world_def)
  have l: "trace (snd (loadFilters ?w)) = []"
    by (simp add: loadFilters_def loadFilters_try_def localStorage_getItem_def example_world_def)
  have d: "clock ?w = 0" "dropdown ?w = Some []" by (simp_all add: example_world_def)
  from retry_window [OF b c, of 0] l d a b c show ?thesis
    by (simp add: Let_def)
qed

text \<open>
  C7 as stated fails when a retry of an earlier trigger is still pending: \<open>setTimeout\<close>
  callbacks are never cancelled and all read and write the one counter. Two triggers, the
  second 1400 ms after the first (100 ms before the first trigger's third re-check is
  due), the mount point absent throughout. The second trigger resets the counter, so the
  chain of the first trigger goes on to a fourth re-check: it runs at 500, 1000, 1500 and
  2000 ms. After the second trigger four re-checks run, at 1500, 1900, 2000 and 2400 ms,
  and the warning is logged twice.
\<close>

theorem retry_window_counterexample:
  "trace (snd (run_timers 4 (snd (handleLocationChange
      ((snd (run_timers 2 (snd (handleLocationChange (example_world\<lparr>subnav := None\<rparr>)))))
         \<lparr>clock := 1400\<rparr>)))))
   = [TimerFired 500, TimerFired 1000, TimerFired 1500, TimerFired 1900, TimerFired 2000,
      ConsoleWarn ''Failed to initialize GitHub PR Filter after maximum retry attempts'',
      TimerFired 2400,
      ConsoleWarn ''Failed to initialize GitHub PR Filter after maximum retry attempts'']"
proof -
  have "run_timers 2 = run_timers (Suc (Suc 0))"
    and "run_timers 4 = run_timers (Suc (Suc (Suc (Suc 0))))"
    by (simp_all add: numeral_eq_Suc)
  then show ?thesis
    by (simp add: example_world_def handleLocationChange_def isPullRequestPage_def loadFilters_def
        loadFilters_try_def localStorage_getItem_def retryInitialization_def setTimeout_def
        MAX_RETRY_ATTEMPTS_def RETRY_DELAY_def fire_timer_def js_warn_def)
qed

subsection \<open>Leaving the add-filter flow\<close>

text \<open>
  C8. In the add-filter flow an empty query ends the flow at once: the world is left as
  it was, so no prompt is shown and nothing is written. With a query, a prompt that is
  cancelled or answered with the empty string ends the flow after the prompt:
  \<open>this.filters\<close>, \<open>localStorage\<close> and the page are unchanged. The same holds for the
  click on the button when the search input is empty.
\<close>

theorem addNewFilter_aborts:
  "addNewFilter [] w = (Inr (), w)
   \<and> (searchInput w = Some [] \<longrightarrow> favButton_click w = (Inr (), w))
   \<and> (qry \<noteq> [] \<and> (promptReplies w = [] \<or> hd (promptReplies w) = None \<or> hd (promptReplies w) = Some [])
        \<longrightarrow> addNewFilter qry w =
              (Inr (), w\<lparr>promptReplies := tl (promptReplies w),
                         trace := trace w @ [Prompted ''Enter filter label:'']\<rparr>))"
proof -
  have a: "addNewFilter [] w = (Inr (), w)"
    by (simp add: addNewFilter_def addNewFilter_try_def)
  have b: "searchInput w = Some [] \<longrightarrow> favButton_click w = (Inr (), w)"
    by (simp add: favButton_click_def a)
  have c: "addNewFilter qry w =
      (Inr (), w\<lparr>promptReplies := tl (promptReplies w),
                 trace := trace w @ [Prompted ''Enter filter label:'']\<rparr>)"
    if "qry \<noteq> []"
      and "promptReplies w = [] \<or> hd (promptReplies w) = None \<or> hd (promptReplies w) = Some []"
  proof (cases "promptReplies w")
    case Nil
    with that(1) show ?thesis
      by (simp add: addNewFilter_def addNewFilter_try_def promptAsync_def js_prompt_def)
  next
    case (Cons r rs)
    with that(2) have "r = None \<or> r = Some []" by simp
    with Cons that(1) show ?thesis
      by (auto simp: addNewFilter_def addNewFilter_try_def promptAsync_def js_prompt_def)
  qed
  from a b c show ?thesis by blast
qed

theorem addNewFilter_aborts_witness:
  "addNewFilter [] example_world = (Inr (), example_world)
   \<and> favButton_click (example_world\<lparr>searchInput := Some []\<rparr>)
       = (Inr (), example_world\<lparr>searchInput := Some []\<rparr>)
   \<and> addNewFilter ''is:open'' (example_world\<lparr>promptReplies := [None]\<rparr>)
       = (Inr (), example_world\<lparr>promptReplies := [], trace := [Prompted ''Enter filter label:'']\<rparr>)
   \<and> addNewFilter ''is:open'' (example_world\<lparr>promptReplies := [Some []]\<rparr>)
       = (Inr (), example_world\<lparr>promptReplies := [], trace := [Prompted ''Enter filter label:'']\<rparr>)"
proof -
  have t: "trace example_world = []" by (simp add: example_world_def)
  have 1: "addNewFilter [] example_world = (Inr (), example_world)"
    using addNewFilter_aborts [of example_world] by blast
  have 2: "favButton_click (example_world\<lparr>searchInput := Some []\<rparr>)
       = (Inr (), example_world\<lparr>searchInput := Some []\<rparr>)"
    using addNewFilter_aborts [of "example_world\<lparr>searchInput := Some []\<rparr>"] by simp
  have 3: "addNewFilter ''is:open'' (example_world\<lparr>promptReplies := [None]\<rparr>)
       = (Inr (), example_world\<lparr>promptReplies := [], trace := [Prompted ''Enter filter label:'']\<rparr>)"
    using addNewFilter_aborts [of "example_world\<lparr>promptReplies := [None]\<rparr>" "''is:open''"] t
    by simp
  have 4: "addNewFilter ''is:open'' (example_world\<lparr>promptReplies := [Some []]\<rparr>)
       = (Inr (), example_world\<lparr>promptReplies := [], trace := [Prompted ''Enter filter label:'']\<rparr>)"
    using addNewFilter_aborts [of "example_world\<lparr>promptReplies := [Some []]\<rparr>" "''is:open''"] t
    by simp
  from 1 2 3 4 show ?thesis by blast
qed

end
